theory Spec2Isabelle
  imports Main "HOL-Library.Word" "HOL-Library.AList" "HOL-Library.Product_Lexorder"
begin

unbundle bit_operations_syntax

section \<open>The main window of the M64Py frontend (m64py/frontend/mainwindow.py)\<close>

text \<open>
  The window is a controller between the Qt widgets and the emulator worker. Its own
  attributes and the properties of the widgets it owns are the fields of the record
  \<open>main_window\<close>; every call it makes on a collaborator (the worker, the core's
  configuration, the settings, a dialog, the window itself) is appended to the field
  \<open>calls\<close>, in program order. What a handler reads from outside (the worker's state,
  the result of a query, the window geometry, a dialog's answer) comes in through the
  record \<open>env\<close>. The constants imported from \<open>m64py.core.defs\<close>, \<open>m64py.archive\<close> and
  \<open>m64py.frontend.keymap\<close> are the fields of the record \<open>defs\<close>.
\<close>

subsection \<open>Imported constants\<close>

record defs =
  FRONTEND_VERSION :: string
  M64EMU_STOPPED :: int
  M64EMU_RUNNING :: int
  M64EMU_PAUSED :: int
  M64CORE_EMU_STATE :: int
  M64CORE_VIDEO_SIZE :: int
  SIZE_1X :: "int \<times> int"
  SIZE_2X :: "int \<times> int"
  SIZE_3X :: "int \<times> int"
  QT2SDL2 :: "int \<rightharpoonup> int"
  M64P_SAVES :: "(int \<times> string \<times> string) list"
  M64SAV_M64P :: int
  EXT_FILTER :: string

text \<open>Values of the Qt namespace (\<open>Qt.Key\<close>, \<open>Qt.KeyboardModifier\<close>, \<open>Qt.WindowState\<close>).\<close>

definition Key_Return :: int where
  "Key_Return = 0x01000004"

definition Key_Enter :: int where
  "Key_Enter = 0x01000005"

definition AltModifier :: "32 word" where
  "AltModifier = 0x08000000"

definition WindowFullScreen :: "32 word" where
  "WindowFullScreen = 0x00000004"

subsection \<open>Widgets and collaborators\<close>

datatype menu = menuLoad | menuRecent | menuStateSlot

text \<open>
  The actions of the generated user interface, and \<open>slot_action n\<close>, the \<open>QAction\<close> that
  \<open>create_state_slots\<close> creates for slot \<open>n\<close>.
\<close>

datatype action =
    actionManually | actionFromList | actionShowROMInfo
  | actionLoadState | actionSaveState | actionLoadFrom | actionSaveAs
  | actionSaveScreenshot | actionPause | actionMute | actionStop | actionReset
  | actionSoftReset | actionLimitFPS | actionSlowDown | actionSpeedUp
  | actionCheats | actionFullscreen | actionPaths | actionEmulator
  | actionGraphics | actionPlugins | actionAbout | actionLicense | actionLog
  | action1X | action2X | action3X
  | slot_action nat

text \<open>What a lambda connected to a \<open>triggered\<close> signal does when it runs.\<close>

datatype callback =
    call_state_set_slot nat
  | call_resize int int

text \<open>What a single-shot timer runs when it fires.\<close>

datatype timer_slot = wait_for_initialize_slot

record qaction =
  checkable :: bool
  checked :: bool
  enabled :: bool
  caption :: string
  shortcut :: string
  toolTip :: string
  actionGroup :: "nat option"
  triggered :: "callback list"

text \<open>A new \<open>QAction(self)\<close>: not checkable, not checked, enabled, in no group.\<close>

definition QAction :: qaction where
  "QAction = \<lparr>checkable = False, checked = False, enabled = True, caption = [],
     shortcut = [], toolTip = [], actionGroup = None, triggered = []\<rparr>"

datatype cursor = ArrowCursor | BlankCursor | OtherCursor

datatype cheat = Cheat

datatype worker_call =
    worker_init
  | worker_quit
  | worker_core_state_query int
  | worker_core_state_set int int
  | worker_core_get_handle
  | worker_core_config_open_section string
  | worker_core_config_set_parameter string int
  | worker_core_config_get_path string
  | worker_toggle_actions
  | worker_stop
  | worker_start
  | worker_set_filepath string "string option"
  | worker_set_filename string
  | worker_state_load "string option"
  | worker_state_save "(string \<times> int) option"
  | worker_save_screenshot
  | worker_toggle_pause
  | worker_toggle_mute
  | worker_reset "bool option"
  | worker_toggle_speed_limit
  | worker_speed_down
  | worker_speed_up
  | worker_toggle_fs
  | worker_send_sdl_keydown int
  | worker_send_sdl_keyup int
  | worker_state_set_slot nat
  | worker_video_set_widget

datatype call =
    Worker worker_call
  | signal_toggle_fs
  | signal_file_open string "string option"
  | InfoDialog_exec string
  | InfoDialog string
  | ArchiveDialog_exec "string list"
  | AboutDialog
  | LicenseDialog
  | ROMList
  | RomInfo
  | logview_show
  | cheats_show
  | settings_show_page nat
  | settings_raise
  | settings_qset_setValue_size int int
  | settings_qset_setValue_last_dir string
  | resize int int
  | move int int
  | raise_window
  | event_ignore
  | context_doneCurrent
  | context_create
  | context_moveToThread
  | logview_setParent
  | logview_setWindowFlags
  | Settings_create
  | Worker_create
  | RecentFiles_create
  | installEventFilter
  | setCentralWidget
  | QFileDialog_getOpenFileName string
  | QFileDialog_getSaveFileName string

datatype error = TypeError | AttributeError | KeyError

record main_window =
  initialized :: bool
  initialize_attempt :: int
  sizes :: "((int \<times> int) \<times> action) list"
  slots :: "(nat \<times> action) list"
  cheats :: "cheat option"
  widgets_height :: "int option"
  vidext :: bool
  stack :: nat
  glwidget :: cursor
  windowState :: "32 word"
  windowTitle :: string
  statusbar_label :: string
  menubar_visible :: bool
  statusbar_visible :: bool
  menu_enabled :: "menu \<Rightarrow> bool"
  actions :: "action \<Rightarrow> qaction"
  groups :: "bool list"
  menuStateSlot_actions :: "action list"
  timers :: "(nat \<times> timer_slot) list"
  calls :: "call list"

record env =
  worker_state :: int
  emu_state :: int
  core_handle :: bool
  window_width :: int
  window_height :: int
  device_pixels :: "int \<Rightarrow> int"
  isfile :: "string \<Rightarrow> bool"
  sender_data :: "string option option"
  goodname :: string
  super_eventFilter :: bool
  enable_vidext :: int
  settings_size :: "int \<times> int"
  menubar_height :: int
  statusbar_height :: int
  desktop_width :: int
  desktop_height :: int
  archive_accepted :: bool
  archive_current_item :: "string option"
  open_file_name :: string
  save_file_name :: "string \<times> string"


text \<open>
  The fields of \<open>env\<close>: \<open>worker_state\<close> is the attribute \<open>self.worker.state\<close> as the
  handler reads it; \<open>emu_state\<close> is what \<open>worker.core_state_query(M64CORE_EMU_STATE)\<close>
  returns; \<open>core_handle\<close> is the truth value of \<open>worker.core.get_handle()\<close>; \<open>window_width\<close>
  and \<open>window_height\<close> are \<open>self.width()\<close> and \<open>self.height()\<close>; \<open>device_pixels v\<close> is
  \<open>int(v * self.devicePixelRatio())\<close>; \<open>isfile\<close> is \<open>os.path.isfile\<close>; \<open>sender_data\<close>
  is \<open>self.sender()\<close> (\<open>None\<close> when there is no sender) and its \<open>data()\<close>; \<open>goodname\<close>
  is the decoded good name of the ROM; \<open>super_eventFilter\<close> is what
  \<open>QMainWindow.eventFilter\<close> returns; \<open>enable_vidext\<close> is
  \<open>settings.get_int_safe("enable_vidext", 1)\<close> and \<open>settings_size\<close> is
  \<open>settings.get_size_safe()\<close>; \<open>menubar_height\<close> and \<open>statusbar_height\<close> are the
  heights of the two bars; \<open>desktop_width\<close> and \<open>desktop_height\<close> are the screen
  geometry; \<open>archive_accepted\<close> says whether the archive dialog was accepted and
  \<open>archive_current_item\<close> is the data of its current item (\<open>None\<close> when there is no
  current item); \<open>open_file_name\<close> and \<open>save_file_name\<close> are what the file dialogs
  return (the path, and the path with the selected filter).
\<close>

subsection \<open>Qt behaviour the window relies on\<close>

definition do_call :: "call \<Rightarrow> main_window \<Rightarrow> main_window" where
  "do_call c w = w\<lparr>calls := calls w @ [c]\<rparr>"

definition singleShot :: "nat \<Rightarrow> timer_slot \<Rightarrow> main_window \<Rightarrow> main_window" where
  "singleShot msec cb w = w\<lparr>timers := timers w @ [(msec, cb)]\<rparr>"

definition same_exclusive_group :: "main_window \<Rightarrow> action \<Rightarrow> action \<Rightarrow> bool" where
  "same_exclusive_group w a b =
     (case actionGroup (actions w a) of
        None \<Rightarrow> False
      | Some g \<Rightarrow> actionGroup (actions w b) = Some g \<and> g < length (groups w) \<and> groups w ! g)"

text \<open>
  \<open>QAction.setChecked\<close>: nothing happens when the action already has the value; checking
  an action of an exclusive group unchecks the other actions of that group.
\<close>

definition setChecked :: "action \<Rightarrow> bool \<Rightarrow> main_window \<Rightarrow> main_window" where
  "setChecked a b w =
     (if checked (actions w a) = b then w
      else if b then
        w\<lparr>actions := (\<lambda>x. if x = a then (actions w x)\<lparr>checked := True\<rparr>
                          else if same_exclusive_group w a x then (actions w x)\<lparr>checked := False\<rparr>
                          else actions w x)\<rparr>
      else w\<lparr>actions := (actions w)(a := (actions w a)\<lparr>checked := False\<rparr>)\<rparr>)"

definition setEnabled :: "action \<Rightarrow> bool \<Rightarrow> main_window \<Rightarrow> main_window" where
  "setEnabled a b w = w\<lparr>actions := (actions w)(a := (actions w a)\<lparr>enabled := b\<rparr>)\<rparr>"

definition menu_setEnabled :: "menu \<Rightarrow> bool \<Rightarrow> main_window \<Rightarrow> main_window" where
  "menu_setEnabled m b w = w\<lparr>menu_enabled := (menu_enabled w)(m := b)\<rparr>"

definition isFullScreen :: "main_window \<Rightarrow> bool" where
  "isFullScreen w = (windowState w AND WindowFullScreen \<noteq> 0)"

subsection \<open>Window size\<close>

definition set_sizes :: "int \<times> int \<Rightarrow> main_window \<Rightarrow> main_window" where
  "set_sizes sz w =
     (case map_of (sizes w) sz of
        Some a \<Rightarrow> setChecked a True w
      | None \<Rightarrow> fold (\<lambda>a. setChecked a False) (map snd (sizes w)) w)"

text \<open>
  The block of \<open>window_size_triggered\<close> that tells the core the size of the video, with
  its condition; \<open>wh\<close> is \<open>self.widgets_height\<close>.
\<close>

definition set_video_size :: "defs \<Rightarrow> env \<Rightarrow> int \<Rightarrow> int \<Rightarrow> int \<Rightarrow> main_window \<Rightarrow> main_window" where
  "set_video_size d e width height wh w =
     (if vidext w then
        let w1 = do_call (Worker worker_core_get_handle) w in
        if core_handle e then
          let w2 = do_call (Worker (worker_core_config_open_section ''Video-General'')) w1;
              w3 = do_call (Worker (worker_core_config_set_parameter ''ScreenWidth'' width)) w2;
              w4 = do_call (Worker (worker_core_config_set_parameter ''ScreenHeight'' (height - wh))) w3;
              video_size = push_bit 16 (device_pixels e width) + (device_pixels e height - wh)
          in if worker_state e = M64EMU_RUNNING d \<or> worker_state e = M64EMU_PAUSED d
             then do_call (Worker (worker_core_state_set (M64CORE_VIDEO_SIZE d) video_size)) w4
             else w4
        else w1
      else w)"

text \<open>
  \<open>height - self.widgets_height\<close> raises \<open>TypeError\<close> while \<open>widgets_height\<close> is \<open>None\<close>
  (before the first show event), on either path through the function.
\<close>

definition window_size_triggered ::
  "defs \<Rightarrow> env \<Rightarrow> int \<times> int \<Rightarrow> main_window \<Rightarrow> error + main_window" where
  "window_size_triggered d e sz w =
     (case sz of (width, height) \<Rightarrow>
      case widgets_height w of
        None \<Rightarrow> Inl TypeError
      | Some wh \<Rightarrow>
          let w1 = set_video_size d e width height wh w;
              w2 = set_sizes (width, height - wh) w1;
              w3 = do_call (settings_qset_setValue_size width (height - wh)) w2
          in Inr (do_call (resize width height) w3))"

subsection \<open>Waiting for the core\<close>

definition wait_for_initialize :: "defs \<Rightarrow> env \<Rightarrow> main_window \<Rightarrow> error + main_window" where
  "wait_for_initialize d e w =
     (let w1 = do_call (Worker (worker_core_state_query (M64CORE_EMU_STATE d))) w in
      if emu_state e = M64EMU_STOPPED d then
        let w2 = w1\<lparr>initialize_attempt := initialize_attempt w1 + 1\<rparr> in
        if initialize_attempt w2 < 10
        then Inr (singleShot 1000 wait_for_initialize_slot w2)
        else Inr w2
      else
        case window_size_triggered d e (window_width e, window_height e) w1 of
          Inl err \<Rightarrow> Inl err
        | Inr w2 \<Rightarrow> Inr (do_call (Worker worker_toggle_actions) w2))"

subsection \<open>Fullscreen\<close>

definition on_toggle_fs :: "main_window \<Rightarrow> main_window" where
  "on_toggle_fs w =
     (let w1 =
        (if isFullScreen w
         then w\<lparr>menubar_visible := True, statusbar_visible := True, glwidget := ArrowCursor\<rparr>
         else w\<lparr>menubar_visible := False, statusbar_visible := False, glwidget := BlankCursor\<rparr>)
      in w1\<lparr>windowState := windowState w1 XOR WindowFullScreen\<rparr>)"

text \<open>
  \<open>connect_signals\<close> connects \<open>toggle_fs\<close> to \<open>on_toggle_fs\<close>; emitted from a handler of
  the window, the signal runs the slot before \<open>emit\<close> returns.
\<close>

definition toggle_fs_emit :: "main_window \<Rightarrow> main_window" where
  "toggle_fs_emit w = on_toggle_fs (do_call signal_toggle_fs w)"

subsection \<open>ROM opened and closed\<close>

definition update_status :: "string \<Rightarrow> main_window \<Rightarrow> main_window" where
  "update_status status w = w\<lparr>statusbar_label := status\<rparr>"

definition on_set_caption :: "string \<Rightarrow> main_window \<Rightarrow> main_window" where
  "on_set_caption title w = w\<lparr>windowTitle := title\<rparr>"

definition on_rom_opened :: "env \<Rightarrow> main_window \<Rightarrow> main_window" where
  "on_rom_opened e w =
     (let w1 = (if vidext w then w\<lparr>stack := 1\<rparr> else w);
          w2 = (if cheats w1 = None then w1\<lparr>cheats := Some Cheat\<rparr> else w1);
          w3 = update_status (goodname e) w2
      in singleShot 1000 wait_for_initialize_slot w3)"

definition on_rom_closed :: "main_window \<Rightarrow> main_window" where
  "on_rom_closed w =
     (let w1 = (if vidext w \<and> isFullScreen w then toggle_fs_emit w else w);
          w2 = w1\<lparr>stack := 0\<rparr>;
          w3 = setChecked actionMute False w2;
          w4 = setChecked actionPause False w3;
          w5 = setChecked actionLimitFPS True w4;
          w6 = on_set_caption ''M64Py'' w5;
          w7 = update_status ''ROM closed.'' w6
      in w7\<lparr>cheats := None, initialized := False\<rparr>)"


subsection \<open>Keyboard\<close>

datatype event_type = KeyPress | KeyRelease | OtherEvent

record qevent =
  etype :: event_type
  key :: int
  modifiers :: "32 word"

definition eventFilter :: "defs \<Rightarrow> env \<Rightarrow> qevent \<Rightarrow> main_window \<Rightarrow> bool \<times> main_window" where
  "eventFilter d e event w =
     (if etype event = KeyPress then
        if \<not> (worker_state e = M64EMU_RUNNING d \<or> worker_state e = M64EMU_PAUSED d)
        then (False, w)
        else if modifiers event AND AltModifier \<noteq> 0
                \<and> (key event = Key_Enter \<or> key event = Key_Return)
        then (True, toggle_fs_emit w)
        else (case QT2SDL2 d (key event) of
                Some k \<Rightarrow> (True, do_call (Worker (worker_send_sdl_keydown k)) w)
              | None \<Rightarrow> (True, w))
      else if etype event = KeyRelease then
        if \<not> (worker_state e = M64EMU_RUNNING d \<or> worker_state e = M64EMU_PAUSED d)
        then (False, w)
        else (case QT2SDL2 d (key event) of
                Some k \<Rightarrow> (True, do_call (Worker (worker_send_sdl_keyup k)) w)
              | None \<Rightarrow> (True, w))
      else (super_eventFilter e, w))"

subsection \<open>Opening a file\<close>

text \<open>
  The path \<open>on_file_open\<close> works with: its argument, or the data of the sending action
  when the argument is empty. No sender gives \<open>AttributeError\<close>; a sender without data
  gives \<open>None\<close>, on which \<open>os.path.isfile\<close> raises \<open>TypeError\<close>.
\<close>

definition sender_path :: "env \<Rightarrow> error + string" where
  "sender_path e =
     (case sender_data e of
        None \<Rightarrow> Inl AttributeError
      | Some None \<Rightarrow> Inl TypeError
      | Some (Some p) \<Rightarrow> Inr p)"

definition file_open_path :: "env \<Rightarrow> string option \<Rightarrow> error + string" where
  "file_open_path e filepath =
     (case filepath of
        None \<Rightarrow> sender_path e
      | Some p \<Rightarrow> if p = [] then sender_path e else Inr p)"

definition on_file_open ::
  "defs \<Rightarrow> env \<Rightarrow> string option \<Rightarrow> string option \<Rightarrow> main_window \<Rightarrow> error + main_window" where
  "on_file_open d e filepath filename w =
     (case file_open_path e filepath of
        Inl err \<Rightarrow> Inl err
      | Inr p \<Rightarrow>
          if \<not> isfile e p
          then Inr (do_call (InfoDialog_exec (''File '' @ p @ '' not found.'')) w)
          else
            let w1 = do_call (Worker (worker_core_state_query (M64CORE_EMU_STATE d))) w;
                w2 = (if worker_state e = M64EMU_RUNNING d \<or> worker_state e = M64EMU_PAUSED d
                      then do_call (Worker worker_stop) w1 else w1);
                w3 = do_call (Worker (worker_set_filepath p filename)) w2;
                w4 = do_call (Worker worker_start) w3
            in Inr (do_call raise_window w4))"

subsection \<open>Enabling and disabling the controls\<close>

definition on_state_changed :: "bool \<times> bool \<times> bool \<times> bool \<Rightarrow> main_window \<Rightarrow> main_window" where
  "on_state_changed states w =
     (case states of (load, pause, action, cheats') \<Rightarrow>
        fold (\<lambda>statement. statement)
          [menu_setEnabled menuLoad load,
           menu_setEnabled menuRecent load,
           menu_setEnabled menuStateSlot load,
           setEnabled actionLoadState action,
           setEnabled actionSaveState action,
           setEnabled actionLoadFrom action,
           setEnabled actionSaveAs action,
           setEnabled actionSaveScreenshot action,
           setEnabled actionShowROMInfo action,
           setEnabled actionMute action,
           setEnabled actionStop action,
           setEnabled actionReset action,
           setEnabled actionSoftReset action,
           setEnabled actionLimitFPS action,
           setEnabled actionSlowDown action,
           setEnabled actionSpeedUp action,
           setEnabled actionFullscreen action,
           setEnabled actionCheats cheats',
           setEnabled actionPause pause,
           setEnabled actionPaths (\<not> action),
           setEnabled actionEmulator (\<not> action),
           setEnabled actionGraphics (\<not> action),
           setEnabled actionPlugins (\<not> action)] w)"


subsection \<open>Formatting numbers\<close>

fun str_nat :: "nat \<Rightarrow> string" where
  "str_nat n =
     (if n < 10 then [''0123456789'' ! n]
      else str_nat (n div 10) @ [''0123456789'' ! (n mod 10)])"

declare str_nat.simps [simp del]

definition str_int :: "int \<Rightarrow> string" where
  "str_int i = (if i < 0 then ''-'' @ str_nat (nat (- i)) else str_nat (nat i))"

subsection \<open>State slots and size actions\<close>

definition setActionGroup :: "action \<Rightarrow> nat \<Rightarrow> main_window \<Rightarrow> main_window" where
  "setActionGroup a g w = w\<lparr>actions := (actions w)(a := (actions w a)\<lparr>actionGroup := Some g\<rparr>)\<rparr>"

definition triggered_connect :: "action \<Rightarrow> callback \<Rightarrow> main_window \<Rightarrow> main_window" where
  "triggered_connect a cb w =
     w\<lparr>actions := (actions w)(a := (actions w a)\<lparr>triggered := triggered (actions w a) @ [cb]\<rparr>)\<rparr>"

text \<open>\<open>QActionGroup(self)\<close> followed by \<open>setExclusive(True)\<close>: the new group and its number.\<close>

definition QActionGroup_exclusive :: "main_window \<Rightarrow> nat \<times> main_window" where
  "QActionGroup_exclusive w = (length (groups w), w\<lparr>groups := groups w @ [True]\<rparr>)"

text \<open>The body of the first loop of \<open>create_state_slots\<close>, for one slot.\<close>

definition create_state_slot :: "nat \<Rightarrow> nat \<Rightarrow> main_window \<Rightarrow> main_window" where
  "create_state_slot grp slot w =
     (let a = slot_action slot;
          w1 = w\<lparr>slots := AList.update slot a (slots w), actions := (actions w)(a := QAction)\<rparr>;
          w2 = w1\<lparr>actions := (actions w1)(a := (actions w1 a)\<lparr>checkable := True\<rparr>)\<rparr>;
          w3 = w2\<lparr>actions := (actions w2)(a := (actions w2 a)\<lparr>caption := ''Slot '' @ str_nat slot\<rparr>)\<rparr>;
          w4 = w3\<lparr>actions := (actions w3)(a := (actions w3 a)\<lparr>shortcut := str_nat slot\<rparr>)\<rparr>;
          w5 = setActionGroup a grp w4
      in w5\<lparr>menuStateSlot_actions := menuStateSlot_actions w5 @ [a]\<rparr>)"

definition create_state_slots :: "main_window \<Rightarrow> error + main_window" where
  "create_state_slots w =
     (case QActionGroup_exclusive w of (grp, w1) \<Rightarrow>
      let w2 = fold (create_state_slot grp) [0..<10] w1 in
      case map_of (slots w2) 0 of
        None \<Rightarrow> Inl KeyError
      | Some a0 \<Rightarrow>
          let w3 = setChecked a0 True w2 in
          Inr (fold (\<lambda>(slot, a). triggered_connect a (call_state_set_slot slot)) (slots w3) w3))"

text \<open>The body of the loop of \<open>create_size_actions\<close>, for one size and its number.\<close>

definition create_size_action ::
  "nat \<Rightarrow> nat \<times> (int \<times> int) \<Rightarrow> main_window \<Rightarrow> error + main_window" where
  "create_size_action grp numbered w =
     (case numbered of (num, (width, height)) \<Rightarrow>
      case map_of (sizes w) (width, height) of
        None \<Rightarrow> Inl KeyError
      | Some a \<Rightarrow>
          let w1 = setActionGroup a grp w in
          case widgets_height w1 of
            None \<Rightarrow> Inl TypeError
          | Some wh \<Rightarrow>
              let w2 = w1\<lparr>actions := (actions w1)(a := (actions w1 a)\<lparr>caption := str_nat num @ ''X''\<rparr>)\<rparr>;
                  w3 = w2\<lparr>actions := (actions w2)(a := (actions w2 a)
                          \<lparr>toolTip := str_int width @ ''x'' @ str_int height\<rparr>)\<rparr>
              in Inr (triggered_connect a (call_resize width (height + wh)) w3))"

fun for_each :: "('a \<Rightarrow> 's \<Rightarrow> error + 's) \<Rightarrow> 'a list \<Rightarrow> 's \<Rightarrow> error + 's" where
  "for_each body [] w = Inr w"
| "for_each body (x # xs) w =
     (case body x w of Inl err \<Rightarrow> Inl err | Inr w' \<Rightarrow> for_each body xs w')"

definition create_size_actions :: "main_window \<Rightarrow> error + main_window" where
  "create_size_actions w =
     (case QActionGroup_exclusive w of (grp, w1) \<Rightarrow>
      let keys = sort (map fst (sizes w1)) in
      for_each (create_size_action grp) (zip [1..<Suc (length keys)] keys) w1)"

subsection \<open>Show, resize and close events\<close>

text \<open>
  \<open>int((a / 2) - (b / 2))\<close>: halving and subtracting are exact on sizes of screens and
  windows, and \<open>int\<close> rounds towards zero.
\<close>

definition half_difference :: "int \<Rightarrow> int \<Rightarrow> int" where
  "half_difference a b = (if b \<le> a then (a - b) div 2 else - ((b - a) div 2))"

definition center_widget :: "env \<Rightarrow> main_window \<Rightarrow> main_window" where
  "center_widget e w =
     do_call (move (half_difference (desktop_width e) (window_width e))
                   (half_difference (desktop_height e) (window_height e))) w"

definition showEvent :: "env \<Rightarrow> main_window \<Rightarrow> error + main_window" where
  "showEvent e w =
     (if widgets_height w = None \<or> widgets_height w = Some 0 then
        case settings_size e of (width, height) \<Rightarrow>
          let wh = menubar_height e + statusbar_height e;
              w1 = w\<lparr>widgets_height := Some wh\<rparr>;
              w2 = do_call (resize width (height + wh)) w1
          in case create_size_actions w2 of
               Inl err \<Rightarrow> Inl err
             | Inr w3 \<Rightarrow> Inr (center_widget e w3)
      else Inr w)"

definition resizeEvent :: "defs \<Rightarrow> env \<Rightarrow> int \<times> int \<Rightarrow> main_window \<Rightarrow> error + main_window" where
  "resizeEvent d e sz w =
     (let w1 = do_call event_ignore w in
      case sz of (width, height) \<Rightarrow>
        if widgets_height w1 = None \<or> widgets_height w1 = Some 0
        then Inr (do_call (resize width height) w1)
        else window_size_triggered d e (width, height) w1)"

definition closeEvent :: "main_window \<Rightarrow> main_window" where
  "closeEvent w = do_call (Worker worker_quit) w"


subsection \<open>Signals of the worker\<close>

definition on_vidext_set_mode :: "main_window \<Rightarrow> main_window" where
  "on_vidext_set_mode w =
     (let w1 = do_call context_doneCurrent w;
          w2 = do_call context_create w1;
          w3 = do_call context_moveToThread w2
      in w3\<lparr>initialized := True\<rparr>)"

text \<open>\<open>os.path.basename\<close>: what follows the last slash.\<close>

definition basename :: "string \<Rightarrow> string" where
  "basename p = rev (takeWhile (\<lambda>c. c \<noteq> CHR ''/'') (rev p))"

definition on_file_opening :: "string \<Rightarrow> main_window \<Rightarrow> main_window" where
  "on_file_opening filepath w = update_status (''Loading '' @ basename filepath @ ''...'') w"

definition on_info_dialog :: "string \<Rightarrow> main_window \<Rightarrow> main_window" where
  "on_info_dialog info w =
     (let w1 = do_call (settings_show_page 0) w;
          w2 = do_call settings_raise w1
      in do_call (InfoDialog info) w2)"

definition on_archive_dialog :: "env \<Rightarrow> string list \<Rightarrow> main_window \<Rightarrow> error + main_window" where
  "on_archive_dialog e files w =
     (let w1 = do_call (ArchiveDialog_exec files) w in
      if archive_accepted e then
        (case archive_current_item e of
           None \<Rightarrow> Inl AttributeError
         | Some fname \<Rightarrow> Inr (do_call (Worker (worker_set_filename fname)) w1))
      else Inr w1)"

subsection \<open>Menu actions\<close>

definition file_open_emit ::
  "defs \<Rightarrow> env \<Rightarrow> string \<Rightarrow> string option \<Rightarrow> main_window \<Rightarrow> error + main_window" where
  "file_open_emit d e filepath filename w =
     on_file_open d e (Some filepath) filename (do_call (signal_file_open filepath filename) w)"

text \<open>\<open>QFileInfo(p).path()\<close>: the directory of the file, without the file name.\<close>

definition QFileInfo_path :: "string \<Rightarrow> string" where
  "QFileInfo_path p =
     (let dir = rev (dropWhile (\<lambda>c. c \<noteq> CHR ''/'') (rev p)) in
      if dir = [] then ''.'' else if dir = ''/'' then ''/'' else butlast dir)"

definition on_actionManually_triggered :: "defs \<Rightarrow> env \<Rightarrow> main_window \<Rightarrow> error + main_window" where
  "on_actionManually_triggered d e w =
     (let w1 = do_call (QFileDialog_getOpenFileName ''Load ROM Image'') w;
          file_path = open_file_name e
      in if file_path \<noteq> [] then
           case file_open_emit d e file_path None w1 of
             Inl err \<Rightarrow> Inl err
           | Inr w2 \<Rightarrow> Inr (do_call (settings_qset_setValue_last_dir (QFileInfo_path file_path)) w2)
         else Inr w1)"

definition on_actionFromList_triggered :: "main_window \<Rightarrow> main_window" where
  "on_actionFromList_triggered w = do_call ROMList w"

definition on_actionShowROMInfo_triggered :: "main_window \<Rightarrow> main_window" where
  "on_actionShowROMInfo_triggered w = do_call RomInfo w"

definition on_actionLoadState_triggered :: "main_window \<Rightarrow> main_window" where
  "on_actionLoadState_triggered w = do_call (Worker (worker_state_load None)) w"

definition on_actionSaveState_triggered :: "main_window \<Rightarrow> main_window" where
  "on_actionSaveState_triggered w = do_call (Worker (worker_state_save None)) w"

definition on_actionLoadFrom_triggered :: "env \<Rightarrow> main_window \<Rightarrow> main_window" where
  "on_actionLoadFrom_triggered e w =
     (let w1 = do_call (Worker (worker_core_config_get_path ''UserData'')) w;
          w2 = do_call (QFileDialog_getOpenFileName ''Load State From File'') w1;
          file_path = open_file_name e
      in if file_path \<noteq> [] then do_call (Worker (worker_state_load (Some file_path))) w2 else w2)"

definition endswith :: "string \<Rightarrow> string \<Rightarrow> bool" where
  "endswith s suffix = (length suffix \<le> length s \<and> drop (length s - length suffix) s = suffix)"

text \<open>The body of the loop of \<open>on_actionSaveAs_triggered\<close>; \<open>file_path\<close> is updated in it.\<close>

definition save_as_step ::
  "string \<Rightarrow> int \<times> string \<times> string \<Rightarrow> string \<times> main_window \<Rightarrow> string \<times> main_window" where
  "save_as_step file_filter item st =
     (case item of (save_type, save_filter, save_ext) \<Rightarrow>
      case st of (file_path, w) \<Rightarrow>
        if file_filter = save_filter then
          let file_path' = (if \<not> endswith file_path save_ext
                            then file_path @ ''.'' @ save_ext else file_path)
          in (file_path', do_call (Worker (worker_state_save (Some (file_path', save_type)))) w)
        else (file_path, w))"

definition on_actionSaveAs_triggered :: "defs \<Rightarrow> env \<Rightarrow> main_window \<Rightarrow> error + main_window" where
  "on_actionSaveAs_triggered d e w =
     (let w1 = do_call (Worker (worker_core_config_get_path ''UserData'')) w in
      case map_of (M64P_SAVES d) (M64SAV_M64P d) of
        None \<Rightarrow> Inl KeyError
      | Some default_filter \<Rightarrow>
          let w2 = do_call (QFileDialog_getSaveFileName ''Save State To File'') w1 in
          case save_file_name e of (file_path, file_filter) \<Rightarrow>
            if file_path \<noteq> []
            then Inr (snd (fold (save_as_step file_filter) (M64P_SAVES d) (file_path, w2)))
            else Inr w2)"

definition on_actionSaveScreenshot_triggered :: "main_window \<Rightarrow> main_window" where
  "on_actionSaveScreenshot_triggered w = do_call (Worker worker_save_screenshot) w"

definition on_actionPause_triggered :: "main_window \<Rightarrow> main_window" where
  "on_actionPause_triggered w = do_call (Worker worker_toggle_pause) w"

definition on_actionMute_triggered :: "main_window \<Rightarrow> main_window" where
  "on_actionMute_triggered w = do_call (Worker worker_toggle_mute) w"

definition on_actionStop_triggered :: "main_window \<Rightarrow> main_window" where
  "on_actionStop_triggered w = do_call (Worker worker_stop) w"

definition on_actionReset_triggered :: "main_window \<Rightarrow> main_window" where
  "on_actionReset_triggered w = do_call (Worker (worker_reset None)) w"

definition on_actionSoftReset_triggered :: "main_window \<Rightarrow> main_window" where
  "on_actionSoftReset_triggered w = do_call (Worker (worker_reset (Some True))) w"

definition on_actionLimitFPS_triggered :: "main_window \<Rightarrow> main_window" where
  "on_actionLimitFPS_triggered w = do_call (Worker worker_toggle_speed_limit) w"

definition on_actionSlowDown_triggered :: "main_window \<Rightarrow> main_window" where
  "on_actionSlowDown_triggered w = do_call (Worker worker_speed_down) w"

definition on_actionSpeedUp_triggered :: "main_window \<Rightarrow> main_window" where
  "on_actionSpeedUp_triggered w = do_call (Worker worker_speed_up) w"

definition on_actionCheats_triggered :: "main_window \<Rightarrow> main_window" where
  "on_actionCheats_triggered w = (if cheats w \<noteq> None then do_call cheats_show w else w)"

definition on_actionFullscreen_triggered :: "main_window \<Rightarrow> main_window" where
  "on_actionFullscreen_triggered w = do_call (Worker worker_toggle_fs) w"

definition on_actionPaths_triggered :: "main_window \<Rightarrow> main_window" where
  "on_actionPaths_triggered w = do_call (settings_show_page 0) w"

definition on_actionEmulator_triggered :: "main_window \<Rightarrow> main_window" where
  "on_actionEmulator_triggered w = do_call (settings_show_page 1) w"

definition on_actionGraphics_triggered :: "main_window \<Rightarrow> main_window" where
  "on_actionGraphics_triggered w = do_call (settings_show_page 2) w"

definition on_actionPlugins_triggered :: "main_window \<Rightarrow> main_window" where
  "on_actionPlugins_triggered w = do_call (settings_show_page 3) w"

definition on_actionAbout_triggered :: "main_window \<Rightarrow> main_window" where
  "on_actionAbout_triggered w = do_call AboutDialog w"

definition on_actionLicense_triggered :: "main_window \<Rightarrow> main_window" where
  "on_actionLicense_triggered w = do_call LicenseDialog w"

definition on_actionLog_triggered :: "main_window \<Rightarrow> main_window" where
  "on_actionLog_triggered w = do_call logview_show w"


subsection \<open>Triggering an action\<close>

definition run_callback :: "callback \<Rightarrow> main_window \<Rightarrow> main_window" where
  "run_callback cb w =
     (case cb of
        call_state_set_slot s \<Rightarrow> do_call (Worker (worker_state_set_slot s)) w
      | call_resize wi he \<Rightarrow> do_call (resize wi he) w)"

text \<open>The slot \<open>on_<action>_triggered\<close> that the generated interface connects by name.\<close>

definition on_triggered :: "defs \<Rightarrow> env \<Rightarrow> action \<Rightarrow> main_window \<Rightarrow> error + main_window" where
  "on_triggered d e a w =
     (case a of
        actionManually \<Rightarrow> on_actionManually_triggered d e w
      | actionFromList \<Rightarrow> Inr (on_actionFromList_triggered w)
      | actionShowROMInfo \<Rightarrow> Inr (on_actionShowROMInfo_triggered w)
      | actionLoadState \<Rightarrow> Inr (on_actionLoadState_triggered w)
      | actionSaveState \<Rightarrow> Inr (on_actionSaveState_triggered w)
      | actionLoadFrom \<Rightarrow> Inr (on_actionLoadFrom_triggered e w)
      | actionSaveAs \<Rightarrow> on_actionSaveAs_triggered d e w
      | actionSaveScreenshot \<Rightarrow> Inr (on_actionSaveScreenshot_triggered w)
      | actionPause \<Rightarrow> Inr (on_actionPause_triggered w)
      | actionMute \<Rightarrow> Inr (on_actionMute_triggered w)
      | actionStop \<Rightarrow> Inr (on_actionStop_triggered w)
      | actionReset \<Rightarrow> Inr (on_actionReset_triggered w)
      | actionSoftReset \<Rightarrow> Inr (on_actionSoftReset_triggered w)
      | actionLimitFPS \<Rightarrow> Inr (on_actionLimitFPS_triggered w)
      | actionSlowDown \<Rightarrow> Inr (on_actionSlowDown_triggered w)
      | actionSpeedUp \<Rightarrow> Inr (on_actionSpeedUp_triggered w)
      | actionCheats \<Rightarrow> Inr (on_actionCheats_triggered w)
      | actionFullscreen \<Rightarrow> Inr (on_actionFullscreen_triggered w)
      | actionPaths \<Rightarrow> Inr (on_actionPaths_triggered w)
      | actionEmulator \<Rightarrow> Inr (on_actionEmulator_triggered w)
      | actionGraphics \<Rightarrow> Inr (on_actionGraphics_triggered w)
      | actionPlugins \<Rightarrow> Inr (on_actionPlugins_triggered w)
      | actionAbout \<Rightarrow> Inr (on_actionAbout_triggered w)
      | actionLicense \<Rightarrow> Inr (on_actionLicense_triggered w)
      | actionLog \<Rightarrow> Inr (on_actionLog_triggered w)
      | action1X \<Rightarrow> Inr w
      | action2X \<Rightarrow> Inr w
      | action3X \<Rightarrow> Inr w
      | slot_action n \<Rightarrow> Inr w)"

text \<open>
  The user triggers an action (\<open>QAction.trigger\<close>). A disabled action ignores it. A
  checkable action toggles, except that the checked action of an exclusive group stays
  checked. Then the slots connected to \<open>triggered\<close> run, in the order of connection.
\<close>

definition trigger :: "defs \<Rightarrow> env \<Rightarrow> action \<Rightarrow> main_window \<Rightarrow> error + main_window" where
  "trigger d e a w =
     (if \<not> enabled (actions w a) then Inr w
      else
        let w1 = (if checkable (actions w a) then
                    if checked (actions w a) \<and> same_exclusive_group w a a then w
                    else setChecked a (\<not> checked (actions w a)) w
                  else w)
        in case on_triggered d e a w1 of
             Inl err \<Rightarrow> Inl err
           | Inr w2 \<Rightarrow> Inr (fold run_callback (triggered (actions w2 a)) w2))"

subsection \<open>The constructor\<close>

text \<open>The dictionary \<open>self.sizes\<close> that the constructor builds.\<close>

definition sizes_dict :: "defs \<Rightarrow> ((int \<times> int) \<times> action) list" where
  "sizes_dict d =
     AList.update (SIZE_3X d) action3X
       (AList.update (SIZE_2X d) action2X
         (AList.update (SIZE_1X d) action1X []))"

definition create_widgets :: "main_window \<Rightarrow> main_window" where
  "create_widgets w =
     (let w1 = w\<lparr>glwidget := ArrowCursor\<rparr>;
          w2 = do_call (Worker worker_video_set_widget) w1;
          w3 = w2\<lparr>stack := 0\<rparr>
      in do_call setCentralWidget w3)"

text \<open>
  \<open>MainWindow_init d e ui\<close> is \<open>__init__\<close> on the window \<open>ui\<close> that \<open>setupUi\<close> has built.
  \<open>stack\<close> and \<open>glwidget\<close> are \<open>None\<close> only inside the constructor, until
  \<open>create_widgets\<close> sets them; the record holds their values from then on.
\<close>

definition MainWindow_init :: "defs \<Rightarrow> env \<Rightarrow> main_window \<Rightarrow> error + main_window" where
  "MainWindow_init d e ui =
     (let w1 = ui\<lparr>initialized := False, initialize_attempt := 0\<rparr>;
          w2 = do_call logview_setParent w1;
          w3 = do_call logview_setWindowFlags w2;
          w4 = update_status (''M64Py version '' @ FRONTEND_VERSION d @ ''.'') w3;
          w5 = w4\<lparr>sizes := sizes_dict d\<rparr>;
          w6 = w5\<lparr>slots := [], cheats := None, widgets_height := None\<rparr>;
          w7 = do_call Settings_create w6;
          w8 = do_call Worker_create w7;
          w9 = w8\<lparr>vidext := (enable_vidext e \<noteq> 0)\<rparr>
      in case create_state_slots w9 of
           Inl err \<Rightarrow> Inl err
         | Inr w10 \<Rightarrow>
             let w11 = create_widgets w10;
                 w12 = do_call installEventFilter w11;
                 w13 = do_call installEventFilter w12;
                 w14 = do_call RecentFiles_create w13
             in Inr (do_call (Worker worker_init) w14))"

subsection \<open>The event loop\<close>

text \<open>
  What reaches the window after its construction: events of the toolkit, a timer that
  fires, the signals connected in \<open>connect_signals\<close>, and the user triggering an action.
\<close>

datatype event =
    ShowEvent
  | CloseEvent
  | ResizeEvent int int
  | FilterEvent qevent
  | TimerEvent
  | signal_rom_opened
  | signal_rom_closed
  | signal_file_open_from "string option" "string option"
  | signal_file_opening string
  | signal_set_caption string
  | signal_state_changed "bool \<times> bool \<times> bool \<times> bool"
  | signal_info_dialog string
  | signal_archive_dialog "string list"
  | signal_toggle_fs_from
  | signal_vidext_set_mode
  | Triggered action

text \<open>The oldest pending single-shot timer fires.\<close>

definition fire_timer :: "defs \<Rightarrow> env \<Rightarrow> main_window \<Rightarrow> error + main_window" where
  "fire_timer d e w =
     (case timers w of
        [] \<Rightarrow> Inr w
      | (msec, wait_for_initialize_slot) # rest \<Rightarrow> wait_for_initialize d e (w\<lparr>timers := rest\<rparr>))"

definition step :: "defs \<Rightarrow> env \<Rightarrow> event \<Rightarrow> main_window \<Rightarrow> error + main_window" where
  "step d e ev w =
     (case ev of
        ShowEvent \<Rightarrow> showEvent e w
      | CloseEvent \<Rightarrow> Inr (closeEvent w)
      | ResizeEvent width height \<Rightarrow> resizeEvent d e (width, height) w
      | FilterEvent event \<Rightarrow> Inr (snd (eventFilter d e event w))
      | TimerEvent \<Rightarrow> fire_timer d e w
      | signal_rom_opened \<Rightarrow> Inr (on_rom_opened e w)
      | signal_rom_closed \<Rightarrow> Inr (on_rom_closed w)
      | signal_file_open_from filepath filename \<Rightarrow> on_file_open d e filepath filename w
      | signal_file_opening filepath \<Rightarrow> Inr (on_file_opening filepath w)
      | signal_set_caption title \<Rightarrow> Inr (on_set_caption title w)
      | signal_state_changed states \<Rightarrow> Inr (on_state_changed states w)
      | signal_info_dialog info \<Rightarrow> Inr (on_info_dialog info w)
      | signal_archive_dialog files \<Rightarrow> on_archive_dialog e files w
      | signal_toggle_fs_from \<Rightarrow> Inr (on_toggle_fs w)
      | signal_vidext_set_mode \<Rightarrow> Inr (on_vidext_set_mode w)
      | Triggered a \<Rightarrow> trigger d e a w)"

text \<open>A session: the events in order, each with what its handler reads from outside.\<close>

fun run :: "defs \<Rightarrow> (event \<times> env) list \<Rightarrow> main_window \<Rightarrow> error + main_window" where
  "run d [] w = Inr w"
| "run d ((ev, e) # rest) w =
     (case step d e ev w of Inl err \<Rightarrow> Inl err | Inr w' \<Rightarrow> run d rest w')"


subsection \<open>Running the pending timers\<close>

text \<open>Which fields the size handlers can change.\<close>

lemma setChecked_only_actions: "\<exists>A. setChecked a b w = w\<lparr>actions := A\<rparr>"
proof -
  have "setChecked a b w = w\<lparr>actions := actions (setChecked a b w)\<rparr>"
    by (simp add: setChecked_def)
  then show ?thesis by blast
qed

lemma fold_setChecked_only_actions:
  "\<exists>A. fold (\<lambda>a. setChecked a b) xs w = w\<lparr>actions := A\<rparr>"
proof (induction xs arbitrary: w)
  case Nil
  have "w = w\<lparr>actions := actions w\<rparr>" by simp
  then show ?case by (metis fold_simps(1))
next
  case (Cons x xs)
  obtain A where A: "setChecked x b w = w\<lparr>actions := A\<rparr>"
    using setChecked_only_actions by blast
  obtain B where "fold (\<lambda>a. setChecked a b) xs (w\<lparr>actions := A\<rparr>) = w\<lparr>actions := A\<rparr>\<lparr>actions := B\<rparr>"
    using Cons.IH by blast
  then have "fold (\<lambda>a. setChecked a b) (x # xs) w = w\<lparr>actions := B\<rparr>"
    by (simp add: A)
  then show ?case by blast
qed

lemma set_sizes_only_actions: "\<exists>A. set_sizes sz w = w\<lparr>actions := A\<rparr>"
  using fold_setChecked_only_actions [of False "map snd (sizes w)" w] setChecked_only_actions
  by (cases "map_of (sizes w) sz") (simp_all add: set_sizes_def)

lemma set_video_size_only_calls:
  "\<exists>C. set_video_size d e width height wh w = w\<lparr>calls := C\<rparr>"
proof -
  have "set_video_size d e width height wh w
      = w\<lparr>calls := calls (set_video_size d e width height wh w)\<rparr>"
    by (simp add: set_video_size_def do_call_def Let_def)
  then show ?thesis by blast
qed

lemma window_size_triggered_only:
  assumes "window_size_triggered d e sz w = Inr w'"
  shows "\<exists>A C. w' = w\<lparr>actions := A, calls := C\<rparr>"
proof -
  obtain width height where sz: "sz = (width, height)" by (cases sz)
  obtain wh where wh: "widgets_height w = Some wh"
    using assms sz by (cases "widgets_height w") (simp_all add: window_size_triggered_def)
  obtain C where C: "set_video_size d e width height wh w = w\<lparr>calls := C\<rparr>"
    using set_video_size_only_calls by blast
  obtain A where A: "set_sizes (width, height - wh) (w\<lparr>calls := C\<rparr>) = w\<lparr>calls := C\<rparr>\<lparr>actions := A\<rparr>"
    using set_sizes_only_actions by blast
  have "w' = w\<lparr>actions := A,
      calls := C @ [settings_qset_setValue_size width (height - wh), resize width height]\<rparr>"
    using assms sz wh by (simp add: window_size_triggered_def C A do_call_def)
  then show ?thesis by blast
qed

lemma window_size_triggered_fields:
  assumes "window_size_triggered d e sz w = Inr w'"
  shows "timers w' = timers w" and "initialize_attempt w' = initialize_attempt w"
    and "initialized w' = initialized w" and "widgets_height w' = widgets_height w"
  using window_size_triggered_only [OF assms] by auto


text \<open>
  Every timer that fires uses up one unit of \<open>timer_budget\<close>: the pending timers plus
  the polls that may still reschedule themselves.
\<close>

definition timer_budget :: "main_window \<Rightarrow> nat" where
  "timer_budget w = length (timers w) + nat (9 - initialize_attempt w)"

lemma wait_for_initialize_budget:
  assumes "wait_for_initialize d e w = Inr w'"
  shows "timer_budget w' \<le> timer_budget w"
proof (cases "emu_state e = M64EMU_STOPPED d")
  case True
  then show ?thesis
    using assms
    by (auto simp: wait_for_initialize_def timer_budget_def do_call_def singleShot_def Let_def
        split: if_splits)
next
  case False
  then obtain w2 where "window_size_triggered d e (window_width e, window_height e)
      (do_call (Worker (worker_core_state_query (M64CORE_EMU_STATE d))) w) = Inr w2"
    and "w' = do_call (Worker worker_toggle_actions) w2"
    using assms by (auto simp: wait_for_initialize_def Let_def split: sum.splits)
  then show ?thesis
    using window_size_triggered_fields(1,2) [of d e _ _ w2]
    by (simp add: do_call_def timer_budget_def)
qed

lemma fire_timer_budget:
  assumes "timers w \<noteq> []" and "fire_timer d e w = Inr w'"
  shows "Suc (timer_budget w') \<le> timer_budget w"
proof -
  obtain msec cb rest where t: "timers w = (msec, cb) # rest"
    using assms(1) by (cases "timers w") auto
  then have "wait_for_initialize d e (w\<lparr>timers := rest\<rparr>) = Inr w'"
    using assms(2) by (cases cb) (simp add: fire_timer_def)
  from wait_for_initialize_budget [OF this] show ?thesis
    using t by (simp add: timer_budget_def)
qed

text \<open>
  The timers fire one after the other until none is pending or a handler raises;
  \<open>es k\<close> is what the handler of the \<open>k\<close>-th firing reads from outside. The result is
  the number of firings with the final window.
\<close>

function run_timers ::
  "defs \<Rightarrow> (nat \<Rightarrow> env) \<Rightarrow> nat \<Rightarrow> main_window \<Rightarrow> nat \<times> (error + main_window)" where
  "run_timers d es n w =
     (if timers w = [] then (n, Inr w)
      else case fire_timer d (es n) w of
             Inl err \<Rightarrow> (Suc n, Inl err)
           | Inr w' \<Rightarrow> run_timers d es (Suc n) w')"
  by pat_completeness auto
termination
  by (relation "measure (\<lambda>(d, es, n, w). timer_budget w)")
     (auto dest: fire_timer_budget)

declare run_timers.simps [simp del]


subsection \<open>Conditions that the properties name\<close>

text \<open>
  The emulator is running or paused; a key event is Enter or Return with Alt held; the
  three window-size actions are in one exclusive group; the window-size actions that
  are checked; the ten state-slot actions are enabled and checkable, in one exclusive
  group, each connected to its \<open>state_set_slot\<close>; the state slots whose action is checked.
\<close>

definition emulator_active :: "defs \<Rightarrow> env \<Rightarrow> bool" where
  "emulator_active d e = (worker_state e = M64EMU_RUNNING d \<or> worker_state e = M64EMU_PAUSED d)"

definition alt_enter :: "qevent \<Rightarrow> bool" where
  "alt_enter event =
     (modifiers event AND AltModifier \<noteq> 0 \<and> (key event = Key_Enter \<or> key event = Key_Return))"

definition size_actions_grouped :: "main_window \<Rightarrow> bool" where
  "size_actions_grouped w =
     (same_exclusive_group w action1X action2X \<and> same_exclusive_group w action1X action3X)"

definition checked_size_actions :: "main_window \<Rightarrow> action list" where
  "checked_size_actions w = filter (\<lambda>a. checked (actions w a)) [action1X, action2X, action3X]"

definition state_slots_grouped :: "main_window \<Rightarrow> bool" where
  "state_slots_grouped w =
     (case actionGroup (actions w (slot_action 0)) of
        None \<Rightarrow> False
      | Some g \<Rightarrow>
          g < length (groups w) \<and> groups w ! g
          \<and> list_all (\<lambda>s. enabled (actions w (slot_action s))
                           \<and> checkable (actions w (slot_action s))
                           \<and> actionGroup (actions w (slot_action s)) = Some g
                           \<and> triggered (actions w (slot_action s)) = [call_state_set_slot s])
               [0..<10])"

definition checked_slots :: "main_window \<Rightarrow> nat list" where
  "checked_slots w = filter (\<lambda>s. checked (actions w (slot_action s))) [0..<10]"

subsection \<open>The calls that reach the worker\<close>

fun worker_calls :: "call list \<Rightarrow> worker_call list" where
  "worker_calls [] = []"
| "worker_calls (Worker c # cs) = c # worker_calls cs"
| "worker_calls (c # cs) = worker_calls cs"

subsection \<open>A concrete window\<close>

text \<open>
  One valuation of the imported constants, one environment and one window that has been
  shown, for the examples that follow.
\<close>

definition example_defs :: defs where
  "example_defs =
     \<lparr>FRONTEND_VERSION = ''0.2.5'', M64EMU_STOPPED = 1, M64EMU_RUNNING = 2, M64EMU_PAUSED = 3,
      M64CORE_EMU_STATE = 1, M64CORE_VIDEO_SIZE = 6,
      SIZE_1X = (320, 240), SIZE_2X = (640, 480), SIZE_3X = (960, 720),
      QT2SDL2 = [Key_Return \<mapsto> 40, 65 \<mapsto> 4],
      M64P_SAVES = [(1, ''M64P (*.m64p)'', ''m64p''), (2, ''PJ64 (*.pj)'', ''pj'')],
      M64SAV_M64P = 1, EXT_FILTER = ''*.z64 *.n64''\<rparr>"

definition example_env :: env where
  "example_env =
     \<lparr>worker_state = 2, emu_state = 2, core_handle = True,
      window_width = 640, window_height = 525, device_pixels = (\<lambda>v. v),
      isfile = (\<lambda>p. p = ''/roms/mario.z64''), sender_data = None,
      goodname = ''Super Mario 64'', super_eventFilter = False, enable_vidext = 1,
      settings_size = (640, 480), menubar_height = 23, statusbar_height = 22,
      desktop_width = 1920, desktop_height = 1080, archive_accepted = False,
      archive_current_item = None, open_file_name = [], save_file_name = ([], [])\<rparr>"

definition example_window :: main_window where
  "example_window =
     \<lparr>initialized = False, initialize_attempt = 0,
      sizes = [((320, 240), action1X), ((640, 480), action2X), ((960, 720), action3X)],
      slots = map (\<lambda>s. (s, slot_action s)) [0..<10],
      cheats = None, widgets_height = Some 45, vidext = True, stack = 0,
      glwidget = ArrowCursor, windowState = 0, windowTitle = ''M64Py'',
      statusbar_label = [], menubar_visible = True, statusbar_visible = True,
      menu_enabled = (\<lambda>m. True),
      actions = (\<lambda>a. case a of
          slot_action s \<Rightarrow>
            QAction\<lparr>checkable := True, checked := (s = 0), actionGroup := Some 0,
              triggered := [call_state_set_slot s]\<rparr>
        | _ \<Rightarrow>
            QAction\<lparr>checkable := True,
              actionGroup := (if a = action1X \<or> a = action2X \<or> a = action3X
                              then Some 1 else None)\<rparr>),
      groups = [True, True], menuStateSlot_actions = map slot_action [0..<10],
      timers = [], calls = []\<rparr>"

definition example_key_event :: qevent where
  "example_key_event = \<lparr>etype = KeyPress, key = 65, modifiers = 0\<rparr>"

definition example_exhausted :: main_window where
  "example_exhausted = example_window\<lparr>initialize_attempt := 10\<rparr>"


definition example_env_stopped :: env where
  "example_env_stopped = example_env\<lparr>emu_state := 1\<rparr>"


section \<open>Properties\<close>

subsection \<open>The initialization poll\<close>

lemma run_timers_bound:
  "fst (run_timers d es n w) \<le> n + timer_budget w"
proof (induction d es n w rule: run_timers.induct)
  case (1 d es n w)
  show ?case
  proof (cases "timers w = []")
    case True
    then show ?thesis by (simp add: run_timers.simps [of d es n w])
  next
    case False
    show ?thesis
    proof (cases "fire_timer d (es n) w")
      case (Inl err)
      have "0 < timer_budget w" using False by (simp add: timer_budget_def)
      then show ?thesis using False Inl by (simp add: run_timers.simps [of d es n w])
    next
      case (Inr w')
      have "fst (run_timers d es (Suc n) w') \<le> Suc n + timer_budget w'"
        using "1.IH" [OF False Inr] .
      also have "\<dots> \<le> n + timer_budget w"
        using fire_timer_budget [OF False Inr] by simp
      finally show ?thesis using False Inr by (simp add: run_timers.simps [of d es n w])
    qed
  qed
qed

lemma run_timers_none_pending:
  "snd (run_timers d es n w) = Inr w' \<Longrightarrow> timers w' = []"
proof (induction d es n w rule: run_timers.induct)
  case (1 d es n w)
  show ?case
  proof (cases "timers w = []")
    case True
    then show ?thesis using "1.prems" by (simp add: run_timers.simps [of d es n w])
  next
    case False
    show ?thesis
    proof (cases "fire_timer d (es n) w")
      case (Inl err)
      then show ?thesis using False "1.prems" by (simp add: run_timers.simps [of d es n w])
    next
      case (Inr w2)
      then show ?thesis using False "1.prems" "1.IH" [OF False Inr]
        by (simp add: run_timers.simps [of d es n w])
    qed
  qed
qed

lemma wait_for_initialize_stopped:
  assumes "emu_state e = M64EMU_STOPPED d"
  shows "wait_for_initialize d e w =
     Inr (if initialize_attempt w + 1 < 10
          then w\<lparr>initialize_attempt := initialize_attempt w + 1,
                 timers := timers w @ [(1000, wait_for_initialize_slot)],
                 calls := calls w @ [Worker (worker_core_state_query (M64CORE_EMU_STATE d))]\<rparr>
          else w\<lparr>initialize_attempt := initialize_attempt w + 1,
                 calls := calls w @ [Worker (worker_core_state_query (M64CORE_EMU_STATE d))]\<rparr>)"
  using assms by (simp add: wait_for_initialize_def do_call_def singleShot_def Let_def)

lemma window_size_triggered_returns:
  assumes "widgets_height w = Some wh"
  shows "\<exists>w'. window_size_triggered d e sz w = Inr w'"
  using assms by (cases sz) (simp add: window_size_triggered_def Let_def)

lemma wait_for_initialize_not_stopped:
  assumes "emu_state e \<noteq> M64EMU_STOPPED d" and "widgets_height w = Some wh"
  shows "\<exists>w2 w'. window_size_triggered d e (window_width e, window_height e)
            (do_call (Worker (worker_core_state_query (M64CORE_EMU_STATE d))) w) = Inr w2
          \<and> wait_for_initialize d e w = Inr w'
          \<and> w' = do_call (Worker worker_toggle_actions) w2
          \<and> timers w' = timers w
          \<and> initialize_attempt w' = initialize_attempt w"
proof -
  let ?w1 = "do_call (Worker (worker_core_state_query (M64CORE_EMU_STATE d))) w"
  have "widgets_height ?w1 = Some wh" using assms(2) by (simp add: do_call_def)
  then obtain w2 where w2: "window_size_triggered d e (window_width e, window_height e) ?w1 = Inr w2"
    using window_size_triggered_returns by blast
  have "timers w2 = timers w" "initialize_attempt w2 = initialize_attempt w"
    using window_size_triggered_fields(1,2) [OF w2] by (simp_all add: do_call_def)
  then show ?thesis
    using assms(1) w2 by (simp add: wait_for_initialize_def Let_def do_call_def)
qed


text \<open>
  The claim C1 as it is written fails when a poll is still pending while a ROM is
  opened: \<open>on_rom_opened\<close> schedules a poll whatever is pending, so after two opens in a
  row, with the core stopped throughout, \<open>wait_for_initialize\<close> runs 11 times.
\<close>

theorem wait_for_initialize_polls_counterexample:
  "fst (run_timers example_defs (\<lambda>k. example_env_stopped) 0
         (on_rom_opened example_env (on_rom_opened example_env example_window))) = 11"
  by code_simp

text \<open>
  C1, amended. A call of \<open>wait_for_initialize\<close> queries the emulator state first. When
  the state is \<open>M64EMU_STOPPED\<close> it increments the attempt counter and schedules itself
  again exactly when the incremented counter is below 10, and does nothing else. When
  the state is not stopped (and the window has been shown, so that \<open>widgets_height\<close> is
  set) it schedules nothing and leaves the counter alone, runs \<open>window_size_triggered\<close>
  on the size of the window and then calls \<open>worker.toggle_actions\<close>. After
  \<open>on_rom_opened\<close> the timer fires at most 10 times plus once for every poll that was
  already pending when the ROM was opened (the counter not being negative), whatever the
  core answers: at most 10 times when none was pending. No timer is pending at the end.
\<close>

theorem wait_for_initialize_polls:
  "(emu_state e = M64EMU_STOPPED d \<longrightarrow>
      wait_for_initialize d e w =
        Inr (if initialize_attempt w + 1 < 10
             then w\<lparr>initialize_attempt := initialize_attempt w + 1,
                    timers := timers w @ [(1000, wait_for_initialize_slot)],
                    calls := calls w @ [Worker (worker_core_state_query (M64CORE_EMU_STATE d))]\<rparr>
             else w\<lparr>initialize_attempt := initialize_attempt w + 1,
                    calls := calls w @ [Worker (worker_core_state_query (M64CORE_EMU_STATE d))]\<rparr>))
   \<and> (emu_state e \<noteq> M64EMU_STOPPED d \<and> widgets_height w \<noteq> None \<longrightarrow>
        (\<exists>w2 w'. window_size_triggered d e (window_width e, window_height e)
              (do_call (Worker (worker_core_state_query (M64CORE_EMU_STATE d))) w) = Inr w2
            \<and> wait_for_initialize d e w = Inr w'
            \<and> w' = do_call (Worker worker_toggle_actions) w2
            \<and> timers w' = timers w
            \<and> initialize_attempt w' = initialize_attempt w))
   \<and> fst (run_timers d es 0 (on_rom_opened e0 w))
        \<le> length (timers w) + 1 + nat (9 - initialize_attempt w)
   \<and> (0 \<le> initialize_attempt w \<longrightarrow>
        fst (run_timers d es 0 (on_rom_opened e0 w)) \<le> length (timers w) + 10)
   \<and> (\<forall>w'. snd (run_timers d es 0 (on_rom_opened e0 w)) = Inr w' \<longrightarrow> timers w' = [])"
proof (intro conjI impI)
  assume "emu_state e = M64EMU_STOPPED d"
  then show "wait_for_initialize d e w =
        Inr (if initialize_attempt w + 1 < 10
             then w\<lparr>initialize_attempt := initialize_attempt w + 1,
                    timers := timers w @ [(1000, wait_for_initialize_slot)],
                    calls := calls w @ [Worker (worker_core_state_query (M64CORE_EMU_STATE d))]\<rparr>
             else w\<lparr>initialize_attempt := initialize_attempt w + 1,
                    calls := calls w @ [Worker (worker_core_state_query (M64CORE_EMU_STATE d))]\<rparr>)"
    by (rule wait_for_initialize_stopped)
next
  assume "emu_state e \<noteq> M64EMU_STOPPED d \<and> widgets_height w \<noteq> None"
  then show "\<exists>w2 w'. window_size_triggered d e (window_width e, window_height e)
              (do_call (Worker (worker_core_state_query (M64CORE_EMU_STATE d))) w) = Inr w2
            \<and> wait_for_initialize d e w = Inr w'
            \<and> w' = do_call (Worker worker_toggle_actions) w2
            \<and> timers w' = timers w
            \<and> initialize_attempt w' = initialize_attempt w"
    using wait_for_initialize_not_stopped [of e d w] by auto
next
  have b: "timer_budget (on_rom_opened e0 w)
      = length (timers w) + 1 + nat (9 - initialize_attempt w)"
    by (simp add: on_rom_opened_def timer_budget_def singleShot_def update_status_def Let_def)
  show g: "fst (run_timers d es 0 (on_rom_opened e0 w))
        \<le> length (timers w) + 1 + nat (9 - initialize_attempt w)"
    using run_timers_bound [of d es 0 "on_rom_opened e0 w"] by (simp add: b)
  assume "0 \<le> initialize_attempt w"
  then have "nat (9 - initialize_attempt w) \<le> 9" by simp
  then show "fst (run_timers d es 0 (on_rom_opened e0 w)) \<le> length (timers w) + 10"
    using g by simp
next
  show "\<forall>w'. snd (run_timers d es 0 (on_rom_opened e0 w)) = Inr w' \<longrightarrow> timers w' = []"
    using run_timers_none_pending by blast
qed

theorem wait_for_initialize_polls_witness:
  "wait_for_initialize example_defs example_env_stopped example_window =
     Inr (example_window\<lparr>initialize_attempt := 1,
            timers := [(1000, wait_for_initialize_slot)],
            calls := [Worker (worker_core_state_query 1)]\<rparr>)
   \<and> (\<exists>w2 w'. window_size_triggered example_defs example_env (640, 525)
              (do_call (Worker (worker_core_state_query 1)) example_window) = Inr w2
            \<and> wait_for_initialize example_defs example_env example_window = Inr w'
            \<and> w' = do_call (Worker worker_toggle_actions) w2
            \<and> timers w' = []
            \<and> initialize_attempt w' = 0)
   \<and> fst (run_timers example_defs (\<lambda>k. example_env_stopped) 0
            (on_rom_opened example_env example_window)) \<le> 10"
  using wait_for_initialize_polls [of example_env_stopped example_defs example_window
          "\<lambda>k. example_env_stopped" example_env]
        wait_for_initialize_polls [of example_env example_defs example_window
          "\<lambda>k. example_env_stopped" example_env]
  by (simp add: example_env_stopped_def example_env_def example_defs_def example_window_def)



subsection \<open>Opening a file that does not exist\<close>

lemma worker_calls_append: "worker_calls (xs @ ys) = worker_calls xs @ worker_calls ys"
  by (induction xs rule: worker_calls.induct) simp_all

text \<open>
  C3. Let \<open>p\<close> be the path \<open>on_file_open\<close> works with (its argument when that is not
  empty, otherwise the data of the sending action). When \<open>p\<close> is not an existing file,
  \<open>on_file_open\<close> returns normally, and all it has done is to show the dialog
  "File p not found.": the window is otherwise unchanged and the worker has received no
  call (no query, no stop, no \<open>set_filepath\<close>, no start).
\<close>

theorem on_file_open_missing_file:
  "(file_open_path e filepath = Inr p \<and> \<not> isfile e p \<longrightarrow>
      on_file_open d e filepath filename w =
        Inr (w\<lparr>calls := calls w @ [InfoDialog_exec (''File '' @ p @ '' not found.'')]\<rparr>)
      \<and> (\<forall>w'. on_file_open d e filepath filename w = Inr w' \<longrightarrow>
            worker_calls (calls w') = worker_calls (calls w)))
   \<and> (p \<noteq> [] \<longrightarrow> file_open_path e (Some p) = Inr p)
   \<and> (filepath = None \<or> filepath = Some [] \<longrightarrow>
        file_open_path e filepath =
          (case sender_data e of None \<Rightarrow> Inl AttributeError | Some None \<Rightarrow> Inl TypeError
           | Some (Some q) \<Rightarrow> Inr q))"
  by (auto simp: on_file_open_def file_open_path_def sender_path_def do_call_def
      worker_calls_append)

theorem on_file_open_missing_file_witness:
  "on_file_open example_defs example_env (Some ''/roms/zelda.z64'') None example_window =
     Inr (example_window\<lparr>calls := [InfoDialog_exec ''File /roms/zelda.z64 not found.'']\<rparr>)
   \<and> file_open_path example_env (Some ''/roms/zelda.z64'') = Inr ''/roms/zelda.z64''
   \<and> file_open_path example_env None = Inl AttributeError"
  using on_file_open_missing_file [of example_env "Some ''/roms/zelda.z64''" "''/roms/zelda.z64''"
          example_defs None example_window]
        on_file_open_missing_file [of example_env None "''/roms/zelda.z64''"
          example_defs None example_window]
  by (simp add: example_env_def example_window_def sender_path_def)

subsection \<open>Enabling the controls\<close>

text \<open>
  C4. After \<open>on_state_changed (load, pause, action, cheats)\<close> the enablement of every
  control it touches is determined by the tuple alone: the three menus (Load, Recent,
  StateSlot) are enabled iff \<open>load\<close>, \<open>actionPause\<close> iff \<open>pause\<close>, the fourteen actions
  of the action group iff \<open>action\<close>, \<open>actionCheats\<close> iff \<open>cheats\<close>, and the four settings
  actions iff \<open>action\<close> is false.
\<close>

theorem on_state_changed_enablement:
  "(\<forall>m. menu_enabled (on_state_changed (load, pause, action, cheats') w) m = load)
   \<and> enabled (actions (on_state_changed (load, pause, action, cheats') w) actionPause) = pause
   \<and> list_all (\<lambda>a. enabled (actions (on_state_changed (load, pause, action, cheats') w) a) = action)
        [actionLoadState, actionSaveState, actionLoadFrom, actionSaveAs, actionSaveScreenshot,
         actionShowROMInfo, actionMute, actionStop, actionReset, actionSoftReset,
         actionLimitFPS, actionSlowDown, actionSpeedUp, actionFullscreen]
   \<and> enabled (actions (on_state_changed (load, pause, action, cheats') w) actionCheats) = cheats'
   \<and> list_all (\<lambda>a. enabled (actions (on_state_changed (load, pause, action, cheats') w) a) = (\<not> action))
        [actionPaths, actionEmulator, actionGraphics, actionPlugins]"
proof -
  have m: "menu_enabled (on_state_changed (load, pause, action, cheats') w) m = load" for m
    by (cases m) (simp_all add: on_state_changed_def setEnabled_def menu_setEnabled_def)
  show ?thesis
    using m by (simp add: on_state_changed_def setEnabled_def menu_setEnabled_def)
qed

subsection \<open>Menu actions that pass through to the worker\<close>

text \<open>
  C6. Each of the eleven slots LoadState, SaveState, SaveScreenshot, Pause, Mute, Stop,
  Reset, SoftReset, LimitFPS, SlowDown and SpeedUp appends exactly one call to the calls
  made, the corresponding operation of the worker (\<open>reset(True)\<close> for SoftReset, the
  others without argument), and changes nothing else in the window.
\<close>

theorem menu_triggers_pass_through:
  "on_actionLoadState_triggered w = w\<lparr>calls := calls w @ [Worker (worker_state_load None)]\<rparr>
   \<and> on_actionSaveState_triggered w = w\<lparr>calls := calls w @ [Worker (worker_state_save None)]\<rparr>
   \<and> on_actionSaveScreenshot_triggered w = w\<lparr>calls := calls w @ [Worker worker_save_screenshot]\<rparr>
   \<and> on_actionPause_triggered w = w\<lparr>calls := calls w @ [Worker worker_toggle_pause]\<rparr>
   \<and> on_actionMute_triggered w = w\<lparr>calls := calls w @ [Worker worker_toggle_mute]\<rparr>
   \<and> on_actionStop_triggered w = w\<lparr>calls := calls w @ [Worker worker_stop]\<rparr>
   \<and> on_actionReset_triggered w = w\<lparr>calls := calls w @ [Worker (worker_reset None)]\<rparr>
   \<and> on_actionSoftReset_triggered w = w\<lparr>calls := calls w @ [Worker (worker_reset (Some True))]\<rparr>
   \<and> on_actionLimitFPS_triggered w = w\<lparr>calls := calls w @ [Worker worker_toggle_speed_limit]\<rparr>
   \<and> on_actionSlowDown_triggered w = w\<lparr>calls := calls w @ [Worker worker_speed_down]\<rparr>
   \<and> on_actionSpeedUp_triggered w = w\<lparr>calls := calls w @ [Worker worker_speed_up]\<rparr>"
  by (simp add: on_actionLoadState_triggered_def on_actionSaveState_triggered_def
      on_actionSaveScreenshot_triggered_def on_actionPause_triggered_def
      on_actionMute_triggered_def on_actionStop_triggered_def on_actionReset_triggered_def
      on_actionSoftReset_triggered_def on_actionLimitFPS_triggered_def
      on_actionSlowDown_triggered_def on_actionSpeedUp_triggered_def do_call_def)

subsection \<open>Fullscreen\<close>

lemma fullscreen_bit: "(x AND WindowFullScreen \<noteq> 0) = bit x 2"
proof -
  have "x AND 2 ^ 2 = 0 \<longleftrightarrow> \<not> bit x 2" by (rule and_exp_eq_0_iff_not_bit)
  then show ?thesis by (simp add: WindowFullScreen_def)
qed

lemma bit_xor_fullscreen: "bit (x XOR WindowFullScreen) 2 = (\<not> bit x 2)"
proof -
  have "bit ((2 :: 32 word) ^ 2) 2" by (simp add: bit_exp_iff)
  then have "bit (4 :: 32 word) 2" by simp
  then show ?thesis by (simp add: WindowFullScreen_def bit_xor_iff)
qed

lemma isFullScreen_on_toggle_fs: "isFullScreen (on_toggle_fs w) = (\<not> isFullScreen w)"
  by (simp add: isFullScreen_def fullscreen_bit bit_xor_fullscreen on_toggle_fs_def Let_def)

lemma windowState_on_toggle_fs: "windowState (on_toggle_fs w) = windowState w XOR WindowFullScreen"
  by (simp add: on_toggle_fs_def Let_def)

lemma bars_on_toggle_fs:
  "menubar_visible (on_toggle_fs w) = isFullScreen w"
  "statusbar_visible (on_toggle_fs w) = isFullScreen w"
  "glwidget (on_toggle_fs w) = (if isFullScreen w then ArrowCursor else BlankCursor)"
  by (simp_all add: on_toggle_fs_def Let_def)

text \<open>
  The claim C7 as it is written fails for the bars: \<open>on_toggle_fs\<close> sets their
  visibility from the fullscreen flag, it does not toggle it. On a window that is
  fullscreen with both bars shown, two consecutive calls restore the flag and leave
  both bars hidden.
\<close>

theorem on_toggle_fs_bars_counterexample:
  "isFullScreen (example_window\<lparr>windowState := WindowFullScreen\<rparr>)
   \<and> menubar_visible (example_window\<lparr>windowState := WindowFullScreen\<rparr>)
   \<and> statusbar_visible (example_window\<lparr>windowState := WindowFullScreen\<rparr>)
   \<and> isFullScreen (on_toggle_fs (on_toggle_fs (example_window\<lparr>windowState := WindowFullScreen\<rparr>)))
   \<and> \<not> menubar_visible
         (on_toggle_fs (on_toggle_fs (example_window\<lparr>windowState := WindowFullScreen\<rparr>)))
   \<and> \<not> statusbar_visible
         (on_toggle_fs (on_toggle_fs (example_window\<lparr>windowState := WindowFullScreen\<rparr>)))"
proof -
  have "isFullScreen (example_window\<lparr>windowState := WindowFullScreen\<rparr>)"
    by (simp add: isFullScreen_def WindowFullScreen_def)
  then show ?thesis
    by (simp add: isFullScreen_on_toggle_fs bars_on_toggle_fs example_window_def)
qed

text \<open>
  C7, amended. A call of \<open>on_toggle_fs\<close> flips the \<open>WindowFullScreen\<close> bit of the window
  state; entering fullscreen it hides the menu bar and the status bar and blanks the
  cursor, leaving it it shows them and restores the arrow cursor. Two consecutive calls
  restore the window state, hence the fullscreen flag, and leave the two bars visible
  exactly when the window is not fullscreen: they restore the visibility of the bars
  whenever the bars were visible exactly when the window was not fullscreen, which is
  the case after any call of \<open>on_toggle_fs\<close>.
\<close>

theorem on_toggle_fs_involution:
  "windowState (on_toggle_fs w) = windowState w XOR WindowFullScreen
   \<and> isFullScreen (on_toggle_fs w) = (\<not> isFullScreen w)
   \<and> menubar_visible (on_toggle_fs w) = isFullScreen w
   \<and> statusbar_visible (on_toggle_fs w) = isFullScreen w
   \<and> glwidget (on_toggle_fs w) = (if isFullScreen w then ArrowCursor else BlankCursor)
   \<and> windowState (on_toggle_fs (on_toggle_fs w)) = windowState w
   \<and> isFullScreen (on_toggle_fs (on_toggle_fs w)) = isFullScreen w
   \<and> (menubar_visible w = (\<not> isFullScreen w) \<and> statusbar_visible w = (\<not> isFullScreen w) \<longrightarrow>
        menubar_visible (on_toggle_fs (on_toggle_fs w)) = menubar_visible w
        \<and> statusbar_visible (on_toggle_fs (on_toggle_fs w)) = statusbar_visible w)
   \<and> menubar_visible (on_toggle_fs (on_toggle_fs w)) = (\<not> isFullScreen w)
   \<and> statusbar_visible (on_toggle_fs (on_toggle_fs w)) = (\<not> isFullScreen w)
   \<and> menubar_visible (on_toggle_fs w) = (\<not> isFullScreen (on_toggle_fs w))
   \<and> statusbar_visible (on_toggle_fs w) = (\<not> isFullScreen (on_toggle_fs w))"
proof -
  have "windowState (on_toggle_fs (on_toggle_fs w)) = windowState w"
    by (simp add: windowState_on_toggle_fs xor.assoc)
  then show ?thesis
    by (simp add: windowState_on_toggle_fs isFullScreen_on_toggle_fs bars_on_toggle_fs)
qed


theorem on_toggle_fs_involution_witness:
  "menubar_visible (on_toggle_fs (on_toggle_fs example_window)) = True
   \<and> statusbar_visible (on_toggle_fs (on_toggle_fs example_window)) = True
   \<and> windowState (on_toggle_fs (on_toggle_fs example_window)) = 0
   \<and> windowState (on_toggle_fs example_window) = 4
   \<and> menubar_visible (on_toggle_fs example_window) = False"
  using on_toggle_fs_involution [of example_window]
  by (simp add: example_window_def isFullScreen_def WindowFullScreen_def)

subsection \<open>Closing the ROM\<close>

lemma checked_setChecked_same: "checked (actions (setChecked a b w) a) = b"
  by (auto simp: setChecked_def)

lemma checked_setChecked_False_other:
  "x \<noteq> a \<Longrightarrow> checked (actions (setChecked a False w) x) = checked (actions w x)"
  by (simp add: setChecked_def)

lemma unchecked_setChecked:
  "\<not> checked (actions w x) \<Longrightarrow> x \<noteq> a \<Longrightarrow> \<not> checked (actions (setChecked a b w) x)"
  by (simp add: setChecked_def)

lemma setChecked_same_fields:
  "stack (setChecked a b w) = stack w" "cheats (setChecked a b w) = cheats w"
  "initialized (setChecked a b w) = initialized w" "windowTitle (setChecked a b w) = windowTitle w"
  "statusbar_label (setChecked a b w) = statusbar_label w"
  using setChecked_only_actions [of a b w] by auto

text \<open>
  C9. Whatever the window was before, after \<open>on_rom_closed\<close> the central stack shows
  index 0, \<open>actionMute\<close> and \<open>actionPause\<close> are unchecked, \<open>actionLimitFPS\<close> is checked,
  the caption is "M64Py", the status bar reads "ROM closed.", there is no cheats dialog
  and \<open>_initialized\<close> is false.
\<close>

theorem on_rom_closed_idle:
  "stack (on_rom_closed w) = 0
   \<and> \<not> checked (actions (on_rom_closed w) actionMute)
   \<and> \<not> checked (actions (on_rom_closed w) actionPause)
   \<and> checked (actions (on_rom_closed w) actionLimitFPS)
   \<and> windowTitle (on_rom_closed w) = ''M64Py''
   \<and> statusbar_label (on_rom_closed w) = ''ROM closed.''
   \<and> cheats (on_rom_closed w) = None
   \<and> \<not> initialized (on_rom_closed w)"
proof -
  define w2 where "w2 = (if vidext w \<and> isFullScreen w then toggle_fs_emit w else w)\<lparr>stack := 0\<rparr>"
  define w3 where "w3 = setChecked actionMute False w2"
  define w4 where "w4 = setChecked actionPause False w3"
  define w5 where "w5 = setChecked actionLimitFPS True w4"
  have r: "on_rom_closed w = w5\<lparr>windowTitle := ''M64Py'', statusbar_label := ''ROM closed.'',
      cheats := None, initialized := False\<rparr>"
    by (simp add: on_rom_closed_def w2_def w3_def w4_def w5_def on_set_caption_def
        update_status_def Let_def)
  have "\<not> checked (actions w3 actionMute)"
    unfolding w3_def by (simp add: checked_setChecked_same)
  then have m4: "\<not> checked (actions w4 actionMute)"
    unfolding w4_def by (simp add: checked_setChecked_False_other)
  have p4: "\<not> checked (actions w4 actionPause)"
    unfolding w4_def by (simp add: checked_setChecked_same)
  have "\<not> checked (actions w5 actionMute)" "\<not> checked (actions w5 actionPause)"
    unfolding w5_def using m4 p4 by (simp_all add: unchecked_setChecked)
  moreover have "checked (actions w5 actionLimitFPS)"
    unfolding w5_def by (simp add: checked_setChecked_same)
  moreover have "stack w5 = 0"
    by (simp add: w5_def w4_def w3_def w2_def setChecked_same_fields)
  ultimately show ?thesis by (simp add: r)
qed



subsection \<open>Forwarding keys\<close>

lemma calls_toggle_fs_emit: "calls (toggle_fs_emit w) = calls w @ [signal_toggle_fs]"
  by (simp add: toggle_fs_emit_def on_toggle_fs_def do_call_def Let_def)

text \<open>
  The claim C5 as it is written fails for a key release: releasing Return with Alt held
  while the emulator runs is forwarded to the worker as a key-up, and no fullscreen
  signal is emitted. \<open>eventFilter\<close> looks at the modifiers of key presses only.
\<close>

theorem eventFilter_release_counterexample:
  "eventFilter example_defs example_env
     \<lparr>etype = KeyRelease, key = Key_Return, modifiers = AltModifier\<rparr> example_window
   = (True, example_window\<lparr>calls := [Worker (worker_send_sdl_keyup 40)]\<rparr>)
   \<and> alt_enter \<lparr>etype = KeyRelease, key = Key_Return, modifiers = AltModifier\<rparr>
   \<and> emulator_active example_defs example_env
   \<and> signal_toggle_fs \<notin> set (calls (snd (eventFilter example_defs example_env
        \<lparr>etype = KeyRelease, key = Key_Return, modifiers = AltModifier\<rparr> example_window)))"
  by (simp add: eventFilter_def example_defs_def example_env_def example_window_def
      do_call_def alt_enter_def emulator_active_def AltModifier_def Key_Return_def)

text \<open>
  C5, amended. While the worker is neither running nor paused, \<open>eventFilter\<close> returns
  \<open>False\<close> for key presses and key releases and does nothing. While it is running or
  paused the event is consumed: a press of Enter or Return with Alt emits the fullscreen
  signal and forwards nothing; any other press forwards a key-down when the key is in
  \<open>QT2SDL2\<close>; a release forwards a key-up when the key is in \<open>QT2SDL2\<close>, whatever the
  modifiers.
\<close>

theorem eventFilter_forwarding:
  "(\<not> emulator_active d e \<and> (etype event = KeyPress \<or> etype event = KeyRelease) \<longrightarrow>
      eventFilter d e event w = (False, w))
   \<and> (emulator_active d e \<and> etype event = KeyPress \<and> alt_enter event \<longrightarrow>
        eventFilter d e event w = (True, toggle_fs_emit w)
        \<and> calls (toggle_fs_emit w) = calls w @ [signal_toggle_fs])
   \<and> (emulator_active d e \<and> etype event = KeyPress \<and> \<not> alt_enter event \<longrightarrow>
        eventFilter d e event w =
          (True, case QT2SDL2 d (key event) of
                   Some k \<Rightarrow> w\<lparr>calls := calls w @ [Worker (worker_send_sdl_keydown k)]\<rparr>
                 | None \<Rightarrow> w))
   \<and> (emulator_active d e \<and> etype event = KeyRelease \<longrightarrow>
        eventFilter d e event w =
          (True, case QT2SDL2 d (key event) of
                   Some k \<Rightarrow> w\<lparr>calls := calls w @ [Worker (worker_send_sdl_keyup k)]\<rparr>
                 | None \<Rightarrow> w))"
  by (auto simp: eventFilter_def emulator_active_def alt_enter_def do_call_def calls_toggle_fs_emit
      split: option.splits)

theorem eventFilter_forwarding_witness:
  "eventFilter example_defs (example_env\<lparr>worker_state := 1\<rparr>) example_key_event example_window
     = (False, example_window)
   \<and> eventFilter example_defs example_env
        (example_key_event\<lparr>key := Key_Return, modifiers := AltModifier\<rparr>) example_window
     = (True, toggle_fs_emit example_window)
   \<and> eventFilter example_defs example_env example_key_event example_window
     = (True, example_window\<lparr>calls := [Worker (worker_send_sdl_keydown 4)]\<rparr>)
   \<and> eventFilter example_defs example_env (example_key_event\<lparr>etype := KeyRelease\<rparr>) example_window
     = (True, example_window\<lparr>calls := [Worker (worker_send_sdl_keyup 4)]\<rparr>)"
  using eventFilter_forwarding [of example_defs "example_env\<lparr>worker_state := 1\<rparr>"
          example_key_event example_window]
        eventFilter_forwarding [of example_defs example_env
          "example_key_event\<lparr>key := Key_Return, modifiers := AltModifier\<rparr>" example_window]
        eventFilter_forwarding [of example_defs example_env example_key_event example_window]
        eventFilter_forwarding [of example_defs example_env
          "example_key_event\<lparr>etype := KeyRelease\<rparr>" example_window]
  by (simp add: emulator_active_def alt_enter_def example_defs_def example_env_def
      example_key_event_def example_window_def AltModifier_def Key_Return_def Key_Enter_def)


subsection \<open>Window-size actions\<close>

lemma grouped_all:
  assumes "size_actions_grouped w"
  shows "a \<in> {action1X, action2X, action3X} \<Longrightarrow> b \<in> {action1X, action2X, action3X}
     \<Longrightarrow> same_exclusive_group w a b"
  using assms by (auto simp: size_actions_grouped_def same_exclusive_group_def split: option.splits)

lemma sizes_dict_distinct:
  assumes "distinct [SIZE_1X d, SIZE_2X d, SIZE_3X d]"
  shows "sizes_dict d = [(SIZE_1X d, action1X), (SIZE_2X d, action2X), (SIZE_3X d, action3X)]"
  using assms by (simp add: sizes_dict_def)

lemma checked_setChecked_True_group:
  assumes "same_exclusive_group w a x" and "x \<noteq> a"
    and "checked (actions w a) \<longrightarrow> \<not> checked (actions w x)"
  shows "\<not> checked (actions (setChecked a True w) x)"
  using assms by (auto simp: setChecked_def)

lemma set_sizes_checks:
  assumes d: "distinct [SIZE_1X d, SIZE_2X d, SIZE_3X d]"
    and s: "sizes w = sizes_dict d"
    and g: "size_actions_grouped w"
    and c: "length (checked_size_actions w) \<le> 1"
  shows "checked (actions (set_sizes sz w) action1X) = (sz = SIZE_1X d)"
    and "checked (actions (set_sizes sz w) action2X) = (sz = SIZE_2X d)"
    and "checked (actions (set_sizes sz w) action3X) = (sz = SIZE_3X d)"
proof -
  note szs = s sizes_dict_distinct [OF d]
  have one: "checked (actions w a) \<longrightarrow> \<not> checked (actions w b)"
    if "a \<in> {action1X, action2X, action3X}" "b \<in> {action1X, action2X, action3X}" "a \<noteq> b" for a b
    using c that by (auto simp: checked_size_actions_def split: if_splits)
  consider "sz = SIZE_1X d" | "sz = SIZE_2X d" | "sz = SIZE_3X d"
    | "sz \<noteq> SIZE_1X d" "sz \<noteq> SIZE_2X d" "sz \<noteq> SIZE_3X d" by blast
  then have "checked (actions (set_sizes sz w) action1X) = (sz = SIZE_1X d)
    \<and> checked (actions (set_sizes sz w) action2X) = (sz = SIZE_2X d)
    \<and> checked (actions (set_sizes sz w) action3X) = (sz = SIZE_3X d)"
  proof cases
    case 1
    then have "set_sizes sz w = setChecked action1X True w"
      using d by (auto simp: set_sizes_def szs)
    then show ?thesis
      using 1 d checked_setChecked_True_group [OF grouped_all [OF g, of action1X action2X]]
        checked_setChecked_True_group [OF grouped_all [OF g, of action1X action3X]]
        one [of action1X action2X] one [of action1X action3X]
      by (auto simp: checked_setChecked_same)
  next
    case 2
    then have "set_sizes sz w = setChecked action2X True w"
      using d by (auto simp: set_sizes_def szs)
    then show ?thesis
      using 2 d checked_setChecked_True_group [OF grouped_all [OF g, of action2X action1X]]
        checked_setChecked_True_group [OF grouped_all [OF g, of action2X action3X]]
        one [of action2X action1X] one [of action2X action3X]
      by (auto simp: checked_setChecked_same)
  next
    case 3
    then have "set_sizes sz w = setChecked action3X True w"
      using d by (auto simp: set_sizes_def szs)
    then show ?thesis
      using 3 d checked_setChecked_True_group [OF grouped_all [OF g, of action3X action1X]]
        checked_setChecked_True_group [OF grouped_all [OF g, of action3X action2X]]
        one [of action3X action1X] one [of action3X action2X]
      by (auto simp: checked_setChecked_same)
  next
    case 4
    then have "set_sizes sz w
        = setChecked action3X False (setChecked action2X False (setChecked action1X False w))"
      by (auto simp: set_sizes_def szs)
    then show ?thesis
      using 4 by (simp add: checked_setChecked_same checked_setChecked_False_other)
  qed
  then show "checked (actions (set_sizes sz w) action1X) = (sz = SIZE_1X d)"
    and "checked (actions (set_sizes sz w) action2X) = (sz = SIZE_2X d)"
    and "checked (actions (set_sizes sz w) action3X) = (sz = SIZE_3X d)"
    by simp_all
qed

lemma create_size_action_result:
  assumes "map_of (sizes v) k = Some a" and "widgets_height v = Some wh"
  shows "create_size_action g (num, k) v =
     Inr (v\<lparr>actions := (actions v)(a := (actions v a)
            \<lparr>actionGroup := Some g,
             caption := str_nat num @ ''X'',
             toolTip := str_int (fst k) @ ''x'' @ str_int (snd k),
             triggered := triggered (actions v a) @ [call_resize (fst k) (snd k + wh)]\<rparr>)\<rparr>)"
  using assms
  by (cases k) (simp add: create_size_action_def setActionGroup_def triggered_connect_def Let_def)

lemma create_size_action_loop:
  assumes "snd ` set ps \<subseteq> dom (map_of (sizes v))" and "widgets_height v = Some wh"
  shows "\<exists>A. for_each (create_size_action g) ps v = Inr (v\<lparr>actions := A\<rparr>)
      \<and> (\<forall>a. checked (A a) = checked (actions v a))
      \<and> (\<forall>a. actionGroup (A a) =
            (if a \<in> (\<lambda>k. the (map_of (sizes v) k)) ` snd ` set ps then Some g
             else actionGroup (actions v a)))"
  using assms
proof (induction ps arbitrary: v)
  case Nil
  have "v = v\<lparr>actions := actions v\<rparr>" by simp
  then have "for_each (create_size_action g) [] v = Inr (v\<lparr>actions := actions v\<rparr>)
      \<and> (\<forall>a. checked (actions v a) = checked (actions v a))
      \<and> (\<forall>a. actionGroup (actions v a) =
            (if a \<in> (\<lambda>k. the (map_of (sizes v) k)) ` snd ` set [] then Some g
             else actionGroup (actions v a)))"
    by simp
  then show ?case by blast
next
  case (Cons p ps)
  obtain num k where p: "p = (num, k)" by (cases p)
  obtain a where a: "map_of (sizes v) k = Some a"
    using Cons.prems(1) p by auto
  define v1 where "v1 = v\<lparr>actions := (actions v)(a := (actions v a)
            \<lparr>actionGroup := Some g,
             caption := str_nat num @ ''X'',
             toolTip := str_int (fst k) @ ''x'' @ str_int (snd k),
             triggered := triggered (actions v a) @ [call_resize (fst k) (snd k + wh)]\<rparr>)\<rparr>"
  have step: "create_size_action g p v = Inr v1"
    unfolding p v1_def by (rule create_size_action_result [OF a Cons.prems(2)])
  have v1: "sizes v1 = sizes v" "widgets_height v1 = Some wh"
    using Cons.prems(2) by (simp_all add: v1_def)
  have "snd ` set ps \<subseteq> dom (map_of (sizes v1))"
    using Cons.prems(1) v1 by auto
  from Cons.IH [OF this v1(2)] obtain A where
    A: "for_each (create_size_action g) ps v1 = Inr (v1\<lparr>actions := A\<rparr>)"
    and Ac: "\<forall>x. checked (A x) = checked (actions v1 x)"
    and Ag: "\<forall>x. actionGroup (A x) =
            (if x \<in> (\<lambda>k. the (map_of (sizes v1) k)) ` snd ` set ps then Some g
             else actionGroup (actions v1 x))"
    by blast
  have "for_each (create_size_action g) (p # ps) v = Inr (v\<lparr>actions := A\<rparr>)"
    using step A by (simp add: v1_def)
  moreover have "\<forall>x. checked (A x) = checked (actions v x)"
    using Ac by (simp add: v1_def)
  moreover have "\<forall>x. actionGroup (A x) =
            (if x \<in> (\<lambda>k. the (map_of (sizes v) k)) ` snd ` set (p # ps) then Some g
             else actionGroup (actions v x))"
    using Ag a by (auto simp: v1_def p)
  ultimately show ?case by blast
qed

lemma create_size_actions_groups:
  assumes d: "distinct [SIZE_1X d, SIZE_2X d, SIZE_3X d]"
    and s: "sizes w = sizes_dict d"
    and h: "widgets_height w = Some wh"
  shows "\<exists>A. create_size_actions w = Inr (w\<lparr>groups := groups w @ [True], actions := A\<rparr>)
      \<and> (\<forall>a. checked (A a) = checked (actions w a))
      \<and> size_actions_grouped (w\<lparr>groups := groups w @ [True], actions := A\<rparr>)"
proof -
  let ?g = "length (groups w)"
  let ?w1 = "w\<lparr>groups := groups w @ [True]\<rparr>"
  let ?keys = "sort (map fst (sizes ?w1))"
  let ?ps = "zip [1..<Suc (length ?keys)] ?keys"
  have szs: "sizes ?w1 = [(SIZE_1X d, action1X), (SIZE_2X d, action2X), (SIZE_3X d, action3X)]"
    using s sizes_dict_distinct [OF d] by simp
  have "map snd ?ps = ?keys"
    by (rule map_snd_zip) (simp only: length_upt length_sort length_map diff_Suc_1)
  then have "snd ` set ?ps = set ?keys"
    by (metis set_map)
  moreover have "set ?keys = {SIZE_1X d, SIZE_2X d, SIZE_3X d}"
    unfolding set_sort set_map szs by simp
  ultimately have keys: "snd ` set ?ps = {SIZE_1X d, SIZE_2X d, SIZE_3X d}"
    by (rule trans)
  have "snd ` set ?ps \<subseteq> dom (map_of (sizes ?w1))"
    unfolding keys by (simp add: szs)
  moreover have "widgets_height ?w1 = Some wh" using h by simp
  ultimately obtain A where
    A: "for_each (create_size_action ?g) ?ps ?w1 = Inr (?w1\<lparr>actions := A\<rparr>)"
    and Ac: "\<forall>a. checked (A a) = checked (actions ?w1 a)"
    and Ag: "\<forall>a. actionGroup (A a) =
            (if a \<in> (\<lambda>k. the (map_of (sizes ?w1) k)) ` snd ` set ?ps then Some ?g
             else actionGroup (actions ?w1 a))"
    using create_size_action_loop [of ?ps ?w1 wh ?g] by blast
  have img: "(\<lambda>k. the (map_of (sizes ?w1) k)) ` snd ` set ?ps = {action1X, action2X, action3X}"
    unfolding keys using d by (auto simp: szs)
  have "create_size_actions w = Inr (?w1\<lparr>actions := A\<rparr>)"
    using A by (simp add: create_size_actions_def QActionGroup_exclusive_def Let_def del: upt_Suc)
  moreover have "size_actions_grouped (?w1\<lparr>actions := A\<rparr>)"
    using Ag unfolding img by (simp add: size_actions_grouped_def same_exclusive_group_def)
  ultimately show ?thesis using Ac by auto
qed


lemma window_size_triggered_checks:
  assumes d: "distinct [SIZE_1X d, SIZE_2X d, SIZE_3X d]"
    and s: "sizes w = sizes_dict d"
    and g: "size_actions_grouped w"
    and c: "length (checked_size_actions w) \<le> 1"
    and h: "widgets_height w = Some wh"
  shows "\<exists>w'. window_size_triggered d e (width, height) w = Inr w'
      \<and> checked (actions w' action1X) = ((width, height - wh) = SIZE_1X d)
      \<and> checked (actions w' action2X) = ((width, height - wh) = SIZE_2X d)
      \<and> checked (actions w' action3X) = ((width, height - wh) = SIZE_3X d)"
proof -
  obtain C where C: "set_video_size d e width height wh w = w\<lparr>calls := C\<rparr>"
    using set_video_size_only_calls by blast
  let ?w1 = "w\<lparr>calls := C\<rparr>"
  have s1: "sizes ?w1 = sizes_dict d" using s by simp
  have g1: "size_actions_grouped ?w1"
    using g by (simp add: size_actions_grouped_def same_exclusive_group_def split: option.splits)
  have c1: "length (checked_size_actions ?w1) \<le> 1"
    using c by (simp add: checked_size_actions_def)
  note r = set_sizes_checks [OF d s1 g1 c1, of "(width, height - wh)"]
  show ?thesis
    using h r by (simp add: window_size_triggered_def C do_call_def Let_def)
qed

text \<open>
  C10. Let the three preset sizes be distinct, let \<open>self.sizes\<close> be the dictionary of the
  constructor, and let the three window-size actions be in one exclusive group with at
  most one of them checked. After \<open>set_sizes size\<close> the action of a preset is checked
  iff \<open>size\<close> is that preset: at most one action is checked, and none when \<open>size\<close> is no
  preset. The same holds after \<open>window_size_triggered (width, height)\<close> for the size
  \<open>(width, height - widgets_height)\<close>. \<open>create_size_actions\<close>, which the first show event
  runs, puts the three actions in one exclusive group and checks or unchecks none.
\<close>

theorem set_sizes_exclusive:
  "(distinct [SIZE_1X d, SIZE_2X d, SIZE_3X d] \<and> sizes w = sizes_dict d
      \<and> size_actions_grouped w \<and> length (checked_size_actions w) \<le> 1 \<longrightarrow>
      checked (actions (set_sizes sz w) action1X) = (sz = SIZE_1X d)
      \<and> checked (actions (set_sizes sz w) action2X) = (sz = SIZE_2X d)
      \<and> checked (actions (set_sizes sz w) action3X) = (sz = SIZE_3X d)
      \<and> length (checked_size_actions (set_sizes sz w)) \<le> 1
      \<and> (sz \<notin> {SIZE_1X d, SIZE_2X d, SIZE_3X d} \<longrightarrow> checked_size_actions (set_sizes sz w) = [])
      \<and> (\<forall>wh. widgets_height w = Some wh \<longrightarrow>
            (\<exists>w'. window_size_triggered d e (width, height) w = Inr w'
               \<and> checked (actions w' action1X) = ((width, height - wh) = SIZE_1X d)
               \<and> checked (actions w' action2X) = ((width, height - wh) = SIZE_2X d)
               \<and> checked (actions w' action3X) = ((width, height - wh) = SIZE_3X d))))
   \<and> (distinct [SIZE_1X d, SIZE_2X d, SIZE_3X d] \<and> sizes w = sizes_dict d
        \<and> widgets_height w \<noteq> None \<longrightarrow>
        (\<exists>w'. create_size_actions w = Inr w' \<and> size_actions_grouped w'
           \<and> sizes w' = sizes w
           \<and> checked_size_actions w' = checked_size_actions w))"
proof (rule conjI; intro impI; elim conjE)
  assume d: "distinct [SIZE_1X d, SIZE_2X d, SIZE_3X d]"
    and s: "sizes w = sizes_dict d"
    and g: "size_actions_grouped w"
    and c: "length (checked_size_actions w) \<le> 1"
  note r = set_sizes_checks [OF d s g c, of sz]
  have "checked (actions (set_sizes sz w) action1X) = (sz = SIZE_1X d)
   \<and> checked (actions (set_sizes sz w) action2X) = (sz = SIZE_2X d)
   \<and> checked (actions (set_sizes sz w) action3X) = (sz = SIZE_3X d)
   \<and> length (checked_size_actions (set_sizes sz w)) \<le> 1
   \<and> (sz \<notin> {SIZE_1X d, SIZE_2X d, SIZE_3X d} \<longrightarrow> checked_size_actions (set_sizes sz w) = [])"
    using d r by (auto simp: checked_size_actions_def)
  moreover have "\<forall>wh. widgets_height w = Some wh \<longrightarrow>
            (\<exists>w'. window_size_triggered d e (width, height) w = Inr w'
               \<and> checked (actions w' action1X) = ((width, height - wh) = SIZE_1X d)
               \<and> checked (actions w' action2X) = ((width, height - wh) = SIZE_2X d)
               \<and> checked (actions w' action3X) = ((width, height - wh) = SIZE_3X d))"
    using window_size_triggered_checks [OF d s g c] by blast
  ultimately show "checked (actions (set_sizes sz w) action1X) = (sz = SIZE_1X d)
      \<and> checked (actions (set_sizes sz w) action2X) = (sz = SIZE_2X d)
      \<and> checked (actions (set_sizes sz w) action3X) = (sz = SIZE_3X d)
      \<and> length (checked_size_actions (set_sizes sz w)) \<le> 1
      \<and> (sz \<notin> {SIZE_1X d, SIZE_2X d, SIZE_3X d} \<longrightarrow> checked_size_actions (set_sizes sz w) = [])
      \<and> (\<forall>wh. widgets_height w = Some wh \<longrightarrow>
            (\<exists>w'. window_size_triggered d e (width, height) w = Inr w'
               \<and> checked (actions w' action1X) = ((width, height - wh) = SIZE_1X d)
               \<and> checked (actions w' action2X) = ((width, height - wh) = SIZE_2X d)
               \<and> checked (actions w' action3X) = ((width, height - wh) = SIZE_3X d)))"
    by blast
next
  assume d: "distinct [SIZE_1X d, SIZE_2X d, SIZE_3X d]"
    and s: "sizes w = sizes_dict d"
    and h: "widgets_height w \<noteq> None"
  then obtain wh where "widgets_height w = Some wh" by auto
  from create_size_actions_groups [OF d s this] obtain A where
    "create_size_actions w = Inr (w\<lparr>groups := groups w @ [True], actions := A\<rparr>)"
    "\<forall>a. checked (A a) = checked (actions w a)"
    "size_actions_grouped (w\<lparr>groups := groups w @ [True], actions := A\<rparr>)"
    by blast
  then show "\<exists>w'. create_size_actions w = Inr w' \<and> size_actions_grouped w'
           \<and> sizes w' = sizes w
           \<and> checked_size_actions w' = checked_size_actions w"
    by (simp add: checked_size_actions_def)
qed

lemma example_window_ok:
  "distinct [SIZE_1X example_defs, SIZE_2X example_defs, SIZE_3X example_defs]
   \<and> sizes example_window = sizes_dict example_defs
   \<and> size_actions_grouped example_window \<and> length (checked_size_actions example_window) \<le> 1"
  by (simp add: example_defs_def example_window_def sizes_dict_def size_actions_grouped_def
      same_exclusive_group_def checked_size_actions_def QAction_def)

theorem set_sizes_exclusive_witness:
  "checked (actions (set_sizes (640, 480) example_window) action2X)
   \<and> \<not> checked (actions (set_sizes (640, 480) example_window) action1X)
   \<and> \<not> checked (actions (set_sizes (640, 480) example_window) action3X)
   \<and> checked_size_actions (set_sizes (800, 600) example_window) = []
   \<and> (\<exists>w'. window_size_triggered example_defs example_env (640, 525) example_window = Inr w'
         \<and> checked (actions w' action2X))
   \<and> (\<exists>w'. create_size_actions example_window = Inr w' \<and> size_actions_grouped w')"
proof -
  have h: "widgets_height example_window = Some 45"
    by (simp add: example_window_def)
  have v: "SIZE_1X example_defs = (320, 240)" "SIZE_2X example_defs = (640, 480)"
    "SIZE_3X example_defs = (960, 720)"
    by (simp_all add: example_defs_def)
  show ?thesis
    using set_sizes_exclusive [of example_defs example_window "(640, 480)" example_env 640 525]
      set_sizes_exclusive [of example_defs example_window "(800, 600)" example_env 640 525]
      example_window_ok
    by (auto simp: h v)
qed



subsection \<open>State slots\<close>

lemma create_state_slot_eq:
  "create_state_slot g s w =
     w\<lparr>slots := AList.update s (slot_action s) (slots w),
       actions := (actions w)(slot_action s := QAction\<lparr>checkable := True,
          caption := ''Slot '' @ str_nat s, shortcut := str_nat s, actionGroup := Some g\<rparr>),
       menuStateSlot_actions := menuStateSlot_actions w @ [slot_action s]\<rparr>"
  by (simp add: create_state_slot_def setActionGroup_def Let_def)

lemma fold_create_state_slot:
  "\<exists>A. fold (create_state_slot g) ss w =
         w\<lparr>slots := fold (\<lambda>s. AList.update s (slot_action s)) ss (slots w),
           actions := A,
           menuStateSlot_actions := menuStateSlot_actions w @ map slot_action ss\<rparr>
     \<and> (\<forall>s. A (slot_action s) =
           (if s \<in> set ss
            then QAction\<lparr>checkable := True, caption := ''Slot '' @ str_nat s,
                   shortcut := str_nat s, actionGroup := Some g\<rparr>
            else actions w (slot_action s)))"
proof (induction ss arbitrary: w)
  case Nil
  have "w = w\<lparr>slots := slots w, actions := actions w,
      menuStateSlot_actions := menuStateSlot_actions w\<rparr>" by simp
  then have "fold (create_state_slot g) [] w =
         w\<lparr>slots := fold (\<lambda>s. AList.update s (slot_action s)) [] (slots w),
           actions := actions w,
           menuStateSlot_actions := menuStateSlot_actions w @ map slot_action []\<rparr>
     \<and> (\<forall>s. actions w (slot_action s) =
           (if s \<in> set []
            then QAction\<lparr>checkable := True, caption := ''Slot '' @ str_nat s,
                   shortcut := str_nat s, actionGroup := Some g\<rparr>
            else actions w (slot_action s)))"
    by simp
  then show ?case by blast
next
  case (Cons x xs)
  let ?w1 = "create_state_slot g x w"
  from Cons.IH [of ?w1] obtain A where
    A: "fold (create_state_slot g) xs ?w1 =
         ?w1\<lparr>slots := fold (\<lambda>s. AList.update s (slot_action s)) xs (slots ?w1),
           actions := A,
           menuStateSlot_actions := menuStateSlot_actions ?w1 @ map slot_action xs\<rparr>"
    and As: "\<forall>s. A (slot_action s) =
           (if s \<in> set xs
            then QAction\<lparr>checkable := True, caption := ''Slot '' @ str_nat s,
                   shortcut := str_nat s, actionGroup := Some g\<rparr>
            else actions ?w1 (slot_action s))"
    by blast
  have "fold (create_state_slot g) (x # xs) w =
         w\<lparr>slots := fold (\<lambda>s. AList.update s (slot_action s)) (x # xs) (slots w),
           actions := A,
           menuStateSlot_actions := menuStateSlot_actions w @ map slot_action (x # xs)\<rparr>"
    using A by (simp add: create_state_slot_eq)
  moreover have "\<forall>s. A (slot_action s) =
           (if s \<in> set (x # xs)
            then QAction\<lparr>checkable := True, caption := ''Slot '' @ str_nat s,
                   shortcut := str_nat s, actionGroup := Some g\<rparr>
            else actions w (slot_action s))"
    using As by (auto simp: create_state_slot_eq)
  ultimately show ?case by blast
qed

lemma ten_slots:
  "fold (\<lambda>s. AList.update s (slot_action s)) [0..<10] [] = map (\<lambda>s. (s, slot_action s)) [0..<10]"
  by code_simp

lemma ten_slots_first: "map_of (map (\<lambda>s. (s, slot_action s)) [0..<10]) 0 = Some (slot_action 0)"
  by code_simp

lemma fold_triggered_connect:
  assumes "distinct ss"
  shows "\<exists>A. fold (\<lambda>(slot, a). triggered_connect a (call_state_set_slot slot))
            (map (\<lambda>s. (s, slot_action s)) ss) v = v\<lparr>actions := A\<rparr>
      \<and> (\<forall>s. A (slot_action s) =
            (if s \<in> set ss
             then (actions v (slot_action s))
                    \<lparr>triggered := triggered (actions v (slot_action s)) @ [call_state_set_slot s]\<rparr>
             else actions v (slot_action s)))"
  using assms
proof (induction ss arbitrary: v)
  case Nil
  have "v = v\<lparr>actions := actions v\<rparr>" by simp
  then have "fold (\<lambda>(slot, a). triggered_connect a (call_state_set_slot slot))
            (map (\<lambda>s. (s, slot_action s)) []) v = v\<lparr>actions := actions v\<rparr>
      \<and> (\<forall>s. actions v (slot_action s) =
            (if s \<in> set []
             then (actions v (slot_action s))
                    \<lparr>triggered := triggered (actions v (slot_action s)) @ [call_state_set_slot s]\<rparr>
             else actions v (slot_action s)))"
    by simp
  then show ?case by blast
next
  case (Cons x xs)
  let ?v1 = "triggered_connect (slot_action x) (call_state_set_slot x) v"
  have v1: "?v1 = v\<lparr>actions := (actions v)(slot_action x := (actions v (slot_action x))
      \<lparr>triggered := triggered (actions v (slot_action x)) @ [call_state_set_slot x]\<rparr>)\<rparr>"
    by (simp add: triggered_connect_def)
  have "distinct xs" using Cons.prems by simp
  from Cons.IH [OF this, of ?v1] obtain A where
    A: "fold (\<lambda>(slot, a). triggered_connect a (call_state_set_slot slot))
            (map (\<lambda>s. (s, slot_action s)) xs) ?v1 = ?v1\<lparr>actions := A\<rparr>"
    and As: "\<forall>s. A (slot_action s) =
            (if s \<in> set xs
             then (actions ?v1 (slot_action s))
                    \<lparr>triggered := triggered (actions ?v1 (slot_action s)) @ [call_state_set_slot s]\<rparr>
             else actions ?v1 (slot_action s))"
    by blast
  have "fold (\<lambda>(slot, a). triggered_connect a (call_state_set_slot slot))
            (map (\<lambda>s. (s, slot_action s)) (x # xs)) v = v\<lparr>actions := A\<rparr>"
    using A by (simp add: v1)
  moreover have "\<forall>s. A (slot_action s) =
            (if s \<in> set (x # xs)
             then (actions v (slot_action s))
                    \<lparr>triggered := triggered (actions v (slot_action s)) @ [call_state_set_slot s]\<rparr>
             else actions v (slot_action s))"
    using As Cons.prems by (auto simp: v1)
  ultimately show ?case by blast
qed


lemma list_all_ten: "list_all P [0..<10] = (\<forall>s<10. P s)"
  by (auto simp: list_all_iff)

lemma filter_single: "s < n \<Longrightarrow> filter (\<lambda>t. t = s) [0..<n] = [s]"
  by (induction n) (auto simp: less_Suc_eq)

lemma filter_at_most_one:
  assumes "length (filter P xs) \<le> 1" and "x \<in> set xs" and "P x"
  shows "filter P xs = [x]"
proof -
  have "x \<in> set (filter P xs)" using assms(2,3) by simp
  then show ?thesis
    using assms(1) by (cases "filter P xs") auto
qed

lemma create_state_slots_result:
  assumes "slots w = []"
  shows "\<exists>w'. create_state_slots w = Inr w'
      \<and> slots w' = map (\<lambda>s. (s, slot_action s)) [0..<10]
      \<and> groups w' = groups w @ [True]
      \<and> menuStateSlot_actions w' = menuStateSlot_actions w @ map slot_action [0..<10]
      \<and> (\<forall>s<10. actions w' (slot_action s) =
            QAction\<lparr>checkable := True, checked := (s = 0), caption := ''Slot '' @ str_nat s,
              shortcut := str_nat s, actionGroup := Some (length (groups w)),
              triggered := [call_state_set_slot s]\<rparr>)"
proof -
  let ?g = "length (groups w)"
  let ?w1 = "w\<lparr>groups := groups w @ [True]\<rparr>"
  obtain A where w2: "fold (create_state_slot ?g) [0..<10] ?w1 =
         ?w1\<lparr>slots := fold (\<lambda>s. AList.update s (slot_action s)) [0..<10] (slots ?w1),
           actions := A,
           menuStateSlot_actions := menuStateSlot_actions ?w1 @ map slot_action [0..<10]\<rparr>"
    and A: "\<forall>s. A (slot_action s) =
           (if s \<in> set [0..<10]
            then QAction\<lparr>checkable := True, caption := ''Slot '' @ str_nat s,
                   shortcut := str_nat s, actionGroup := Some ?g\<rparr>
            else actions ?w1 (slot_action s))"
    using fold_create_state_slot [of ?g "[0..<10]" ?w1] by blast
  define w2 where "w2 = w\<lparr>groups := groups w @ [True],
      slots := map (\<lambda>s. (s, slot_action s)) [0..<10], actions := A,
      menuStateSlot_actions := menuStateSlot_actions w @ map slot_action [0..<10]\<rparr>"
  have f: "fold (create_state_slot ?g) [0..<10] ?w1 = w2"
    using w2 assms by (simp add: w2_def ten_slots del: upt_Suc)
  have A10: "A (slot_action s) = QAction\<lparr>checkable := True, caption := ''Slot '' @ str_nat s,
                   shortcut := str_nat s, actionGroup := Some ?g\<rparr>" if "s < 10" for s
    using A that by simp
  define w3 where "w3 = setChecked (slot_action 0) True w2"
  have w3: "w3 = w2\<lparr>actions := actions w3\<rparr>"
    using setChecked_only_actions [of "slot_action 0" True w2] by (auto simp: w3_def)
  have a3: "actions w3 (slot_action s) = QAction\<lparr>checkable := True, checked := (s = 0),
      caption := ''Slot '' @ str_nat s, shortcut := str_nat s, actionGroup := Some ?g\<rparr>"
    if "s < 10" for s
    using A10 [OF that] A10 [of 0]
    by (auto simp: w3_def setChecked_def w2_def QAction_def)
  have s3: "slots w3 = map (\<lambda>s. (s, slot_action s)) [0..<10]"
    by (subst w3) (simp add: w2_def)
  have "distinct [0..<10::nat]" by simp
  from fold_triggered_connect [OF this, of w3] obtain B where
    B: "fold (\<lambda>(slot, a). triggered_connect a (call_state_set_slot slot))
            (map (\<lambda>s. (s, slot_action s)) [0..<10]) w3 = w3\<lparr>actions := B\<rparr>"
    and Bs: "\<forall>s. B (slot_action s) =
            (if s \<in> set [0..<10]
             then (actions w3 (slot_action s))
                    \<lparr>triggered := triggered (actions w3 (slot_action s)) @ [call_state_set_slot s]\<rparr>
             else actions w3 (slot_action s))"
    by blast
  have r: "create_state_slots w = Inr (w3\<lparr>actions := B\<rparr>)"
    using f B s3
    by (simp add: create_state_slots_def QActionGroup_exclusive_def Let_def w2_def w3_def
        ten_slots_first del: upt_Suc)
  have fields: "slots (w3\<lparr>actions := B\<rparr>) = map (\<lambda>s. (s, slot_action s)) [0..<10]"
    "groups (w3\<lparr>actions := B\<rparr>) = groups w @ [True]"
    "menuStateSlot_actions (w3\<lparr>actions := B\<rparr>)
       = menuStateSlot_actions w @ map slot_action [0..<10]"
    by (subst w3, simp add: w2_def del: upt_Suc)+
  have "\<forall>s<10. actions (w3\<lparr>actions := B\<rparr>) (slot_action s) =
            QAction\<lparr>checkable := True, checked := (s = 0), caption := ''Slot '' @ str_nat s,
              shortcut := str_nat s, actionGroup := Some ?g,
              triggered := [call_state_set_slot s]\<rparr>"
    using Bs a3 by (simp add: QAction_def)
  then show ?thesis
    using r fields by blast
qed


lemma setChecked_attributes:
  "enabled (actions (setChecked a b w) x) = enabled (actions w x)"
  "checkable (actions (setChecked a b w) x) = checkable (actions w x)"
  "actionGroup (actions (setChecked a b w) x) = actionGroup (actions w x)"
  "triggered (actions (setChecked a b w) x) = triggered (actions w x)"
  "groups (setChecked a b w) = groups w"
  "calls (setChecked a b w) = calls w"
  by (simp_all add: setChecked_def)

lemma state_slots_groupedD:
  assumes "state_slots_grouped v"
  shows "\<exists>g. g < length (groups v) \<and> groups v ! g
      \<and> (\<forall>t<10. enabled (actions v (slot_action t))
           \<and> checkable (actions v (slot_action t))
           \<and> actionGroup (actions v (slot_action t)) = Some g
           \<and> triggered (actions v (slot_action t)) = [call_state_set_slot t])"
  using assms
  by (auto simp: state_slots_grouped_def list_all_ten split: option.splits)

lemma state_slots_grouped_cong:
  assumes "state_slots_grouped v" and "groups v' = groups v"
    and "\<And>t. enabled (actions v' (slot_action t)) = enabled (actions v (slot_action t))"
    and "\<And>t. checkable (actions v' (slot_action t)) = checkable (actions v (slot_action t))"
    and "\<And>t. actionGroup (actions v' (slot_action t)) = actionGroup (actions v (slot_action t))"
    and "\<And>t. triggered (actions v' (slot_action t)) = triggered (actions v (slot_action t))"
  shows "state_slots_grouped v'"
  using assms by (simp add: state_slots_grouped_def split: option.splits)

lemma trigger_slot:
  assumes g: "state_slots_grouped v" and c: "length (checked_slots v) \<le> 1" and s: "s < 10"
  shows "\<exists>v'. trigger d e (slot_action s) v = Inr v'
      \<and> calls v' = calls v @ [Worker (worker_state_set_slot s)]
      \<and> state_slots_grouped v' \<and> checked_slots v' = [s]"
proof -
  from state_slots_groupedD [OF g] obtain g0 where g0: "g0 < length (groups v)" "groups v ! g0"
    and at': "\<forall>t<10. enabled (actions v (slot_action t))
           \<and> checkable (actions v (slot_action t))
           \<and> actionGroup (actions v (slot_action t)) = Some g0
           \<and> triggered (actions v (slot_action t)) = [call_state_set_slot t]"
    by blast
  have at: "enabled (actions v (slot_action t))
           \<and> checkable (actions v (slot_action t))
           \<and> actionGroup (actions v (slot_action t)) = Some g0
           \<and> triggered (actions v (slot_action t)) = [call_state_set_slot t]" if "t < 10" for t
    using at' that by blast
  have same: "same_exclusive_group v (slot_action s) (slot_action t)" if "t < 10" for t
    using at [OF s] at [OF that] g0 by (simp add: same_exclusive_group_def)
  define w1 where "w1 = (if checked (actions v (slot_action s)) then v
      else setChecked (slot_action s) True v)"
  have attrs: "groups w1 = groups v" "calls w1 = calls v"
    "\<And>t. enabled (actions w1 (slot_action t)) = enabled (actions v (slot_action t))"
    "\<And>t. checkable (actions w1 (slot_action t)) = checkable (actions v (slot_action t))"
    "\<And>t. actionGroup (actions w1 (slot_action t)) = actionGroup (actions v (slot_action t))"
    "\<And>t. triggered (actions w1 (slot_action t)) = triggered (actions v (slot_action t))"
    by (simp_all add: w1_def setChecked_attributes)
  have chk: "checked (actions w1 (slot_action t)) = (t = s)" if "t < 10" for t
  proof (cases "checked (actions v (slot_action s))")
    case True
    have "s \<in> set [0..<10]" using s by simp
    from filter_at_most_one [OF c [unfolded checked_slots_def] this True]
    have "filter (\<lambda>s. checked (actions v (slot_action s))) [0..<10] = [s]" .
    then have "t \<in> set (filter (\<lambda>s. checked (actions v (slot_action s))) [0..<10]) \<longleftrightarrow> t = s"
      by simp
    then show ?thesis using that True by (simp add: w1_def)
  next
    case False
    then show ?thesis
      using same [OF that] by (auto simp: w1_def setChecked_def)
  qed
  let ?v' = "do_call (Worker (worker_state_set_slot s)) w1"
  have t1: "trigger d e (slot_action s) v
      = Inr (fold run_callback (triggered (actions w1 (slot_action s))) w1)"
    using at [OF s] same [OF s]
    by (cases "checked (actions v (slot_action s))")
       (simp_all add: trigger_def on_triggered_def w1_def Let_def)
  have t2: "triggered (actions w1 (slot_action s)) = [call_state_set_slot s]"
    using at [OF s] by (simp add: attrs)
  have "trigger d e (slot_action s) v = Inr ?v'"
    by (simp add: t1 t2 run_callback_def)
  moreover have "calls ?v' = calls v @ [Worker (worker_state_set_slot s)]"
    by (simp add: do_call_def attrs)
  moreover have "state_slots_grouped ?v'"
    by (rule state_slots_grouped_cong [OF g]) (simp_all add: do_call_def attrs)
  moreover have "checked_slots ?v' = [s]"
  proof -
    have "filter (\<lambda>t. checked (actions ?v' (slot_action t))) [0..<10] = filter (\<lambda>t. t = s) [0..<10]"
      by (rule filter_cong) (simp_all add: do_call_def chk)
    then show ?thesis using s by (simp add: checked_slots_def filter_single)
  qed
  ultimately show ?thesis by blast
qed

text \<open>
  C2. Called as the constructor calls it (with \<open>self.slots\<close> empty), \<open>create_state_slots\<close>
  returns normally; \<open>self.slots\<close> then holds exactly the ten actions for the slots 0 to
  9, in this order, which are also the actions added to the StateSlot menu; each is
  checkable, named "Slot n", in the one new group, which is exclusive, and connected to
  \<open>worker.state_set_slot\<close> of its slot; the action of slot 0 is checked and no other.
  On any window whose ten slot actions are so grouped and connected, with at most one of
  them checked, triggering the action of slot \<open>s\<close> makes exactly one call,
  \<open>worker.state_set_slot(s)\<close>, leaves the actions so grouped and connected, and leaves
  the action of slot \<open>s\<close> checked and no other: at most one slot is checked at any time.
\<close>

theorem create_state_slots_exclusive:
  "(slots w = [] \<longrightarrow>
      (\<exists>w'. create_state_slots w = Inr w'
         \<and> slots w' = map (\<lambda>s. (s, slot_action s)) [0..<10]
         \<and> menuStateSlot_actions w' = menuStateSlot_actions w @ map slot_action [0..<10]
         \<and> groups w' = groups w @ [True]
         \<and> (\<forall>s<10. checkable (actions w' (slot_action s))
               \<and> actionGroup (actions w' (slot_action s)) = Some (length (groups w))
               \<and> caption (actions w' (slot_action s)) = ''Slot '' @ str_nat s
               \<and> triggered (actions w' (slot_action s)) = [call_state_set_slot s])
         \<and> state_slots_grouped w'
         \<and> checked_slots w' = [0]))
   \<and> (state_slots_grouped v \<and> length (checked_slots v) \<le> 1 \<and> s < 10 \<longrightarrow>
        (\<exists>v'. trigger d e (slot_action s) v = Inr v'
           \<and> calls v' = calls v @ [Worker (worker_state_set_slot s)]
           \<and> state_slots_grouped v'
           \<and> checked_slots v' = [s]))"
proof (rule conjI; intro impI)
  assume "slots w = []"
  from create_state_slots_result [OF this] obtain w' where
    r: "create_state_slots w = Inr w'"
    and f: "slots w' = map (\<lambda>s. (s, slot_action s)) [0..<10]"
      "groups w' = groups w @ [True]"
      "menuStateSlot_actions w' = menuStateSlot_actions w @ map slot_action [0..<10]"
    and a: "\<forall>s<10. actions w' (slot_action s) =
            QAction\<lparr>checkable := True, checked := (s = 0), caption := ''Slot '' @ str_nat s,
              shortcut := str_nat s, actionGroup := Some (length (groups w)),
              triggered := [call_state_set_slot s]\<rparr>"
    by blast
  have p: "\<forall>s<10. checkable (actions w' (slot_action s))
               \<and> actionGroup (actions w' (slot_action s)) = Some (length (groups w))
               \<and> caption (actions w' (slot_action s)) = ''Slot '' @ str_nat s
               \<and> triggered (actions w' (slot_action s)) = [call_state_set_slot s]"
    using a by simp
  have g: "state_slots_grouped w'"
    using a f(2) by (simp add: state_slots_grouped_def list_all_ten QAction_def del: upt_Suc)
  have "filter (\<lambda>s. checked (actions w' (slot_action s))) [0..<10] = filter (\<lambda>s. s = 0) [0..<10]"
    by (rule filter_cong) (simp_all add: a)
  then have c: "checked_slots w' = [0]"
    unfolding checked_slots_def by (simp only: filter_single [of 0 10, simplified])
  show "\<exists>w'. create_state_slots w = Inr w'
         \<and> slots w' = map (\<lambda>s. (s, slot_action s)) [0..<10]
         \<and> menuStateSlot_actions w' = menuStateSlot_actions w @ map slot_action [0..<10]
         \<and> groups w' = groups w @ [True]
         \<and> (\<forall>s<10. checkable (actions w' (slot_action s))
               \<and> actionGroup (actions w' (slot_action s)) = Some (length (groups w))
               \<and> caption (actions w' (slot_action s)) = ''Slot '' @ str_nat s
               \<and> triggered (actions w' (slot_action s)) = [call_state_set_slot s])
         \<and> state_slots_grouped w'
         \<and> checked_slots w' = [0]"
    using r f p g c by blast
next
  assume "state_slots_grouped v \<and> length (checked_slots v) \<le> 1 \<and> s < 10"
  then show "\<exists>v'. trigger d e (slot_action s) v = Inr v'
           \<and> calls v' = calls v @ [Worker (worker_state_set_slot s)]
           \<and> state_slots_grouped v'
           \<and> checked_slots v' = [s]"
    using trigger_slot by blast
qed


lemma example_window_slots_ok:
  "state_slots_grouped example_window \<and> length (checked_slots example_window) \<le> 1"
proof -
  have "filter (\<lambda>s. checked (actions example_window (slot_action s))) [0..<10]
      = filter (\<lambda>s. s = 0) [0..<10]"
    by (rule filter_cong) (simp_all add: example_window_def)
  then have "checked_slots example_window = [0]"
    unfolding checked_slots_def by (simp only: filter_single [of 0 10, simplified])
  moreover have "state_slots_grouped example_window"
    by (simp add: state_slots_grouped_def list_all_ten example_window_def QAction_def
        del: upt_Suc)
  ultimately show ?thesis by simp
qed

theorem create_state_slots_exclusive_witness:
  "(\<exists>w'. create_state_slots (example_window\<lparr>slots := []\<rparr>) = Inr w'
      \<and> slots w' = map (\<lambda>s. (s, slot_action s)) [0..<10]
      \<and> checked_slots w' = [0])
   \<and> (\<exists>v'. trigger example_defs example_env (slot_action 3) example_window = Inr v'
         \<and> calls v' = [Worker (worker_state_set_slot 3)]
         \<and> checked_slots v' = [3])"
proof -
  have c: "calls example_window = []" by (simp add: example_window_def)
  show ?thesis
    using create_state_slots_exclusive [of "example_window\<lparr>slots := []\<rparr>" example_window 3
        example_defs example_env]
      example_window_slots_ok
    by (auto simp: c)
qed



subsection \<open>The attempt counter over a session\<close>

text \<open>No handler but \<open>wait_for_initialize\<close> writes \<open>_initialize_attempt\<close>.\<close>

lemma attempt_kept [simp]:
  "initialize_attempt (do_call c w) = initialize_attempt w"
  "initialize_attempt (setChecked a b w) = initialize_attempt w"
  "initialize_attempt (setEnabled a b w) = initialize_attempt w"
  "initialize_attempt (menu_setEnabled m b w) = initialize_attempt w"
  "initialize_attempt (setActionGroup a g w) = initialize_attempt w"
  "initialize_attempt (triggered_connect a cb w) = initialize_attempt w"
  "initialize_attempt (update_status st w) = initialize_attempt w"
  "initialize_attempt (on_set_caption ti w) = initialize_attempt w"
  "initialize_attempt (singleShot ms sl w) = initialize_attempt w"
  "initialize_attempt (on_toggle_fs w) = initialize_attempt w"
  "initialize_attempt (run_callback cb w) = initialize_attempt w"
  "initialize_attempt (create_state_slot g s w) = initialize_attempt w"
  by (simp_all add: do_call_def setChecked_def setEnabled_def menu_setEnabled_def
      setActionGroup_def triggered_connect_def update_status_def on_set_caption_def
      singleShot_def on_toggle_fs_def run_callback_def create_state_slot_def Let_def
      split: callback.splits)

lemma attempt_toggle_fs_emit [simp]:
  "initialize_attempt (toggle_fs_emit w) = initialize_attempt w"
  by (simp add: toggle_fs_emit_def)

lemma attempt_fold_kept:
  assumes "\<And>x v. initialize_attempt (f x v) = initialize_attempt v"
  shows "initialize_attempt (fold f xs w) = initialize_attempt w"
  by (induction xs arbitrary: w) (simp_all add: assms)

lemma attempt_for_each_kept:
  assumes "\<And>x v v'. f x v = Inr v' \<Longrightarrow> initialize_attempt v' = initialize_attempt v"
    and "for_each f xs w = Inr w'"
  shows "initialize_attempt w' = initialize_attempt w"
  using assms(2)
proof (induction xs arbitrary: w)
  case Nil
  then show ?case by simp
next
  case (Cons x xs)
  then obtain v where v: "f x w = Inr v" and r: "for_each f xs v = Inr w'"
    by (auto split: sum.splits)
  show ?case using Cons.IH [OF r] assms(1) [OF v] by simp
qed

lemma attempt_set_sizes [simp]: "initialize_attempt (set_sizes sz w) = initialize_attempt w"
  using set_sizes_only_actions [of sz w] by auto

lemma attempt_create_state_slots:
  "create_state_slots w = Inr w' \<Longrightarrow> initialize_attempt w' = initialize_attempt w"
  by (auto simp: create_state_slots_def QActionGroup_exclusive_def Let_def attempt_fold_kept
      split: option.splits prod.splits simp del: upt_Suc)

lemma attempt_create_size_action:
  "create_size_action g p w = Inr w' \<Longrightarrow> initialize_attempt w' = initialize_attempt w"
  by (auto simp: create_size_action_def Let_def split: option.splits prod.splits)

lemma attempt_create_size_actions:
  "create_size_actions w = Inr w' \<Longrightarrow> initialize_attempt w' = initialize_attempt w"
  using attempt_for_each_kept [of "create_size_action (length (groups w))", OF attempt_create_size_action]
  by (fastforce simp: create_size_actions_def QActionGroup_exclusive_def Let_def simp del: upt_Suc)

lemma attempt_showEvent:
  "showEvent e w = Inr w' \<Longrightarrow> initialize_attempt w' = initialize_attempt w"
  by (auto simp: showEvent_def center_widget_def Let_def dest!: attempt_create_size_actions
      split: if_splits prod.splits sum.splits)

lemma attempt_window_size_triggered:
  "window_size_triggered d e sz w = Inr w' \<Longrightarrow> initialize_attempt w' = initialize_attempt w"
  by (rule window_size_triggered_fields(2))

lemma attempt_resizeEvent:
  "resizeEvent d e sz w = Inr w' \<Longrightarrow> initialize_attempt w' = initialize_attempt w"
  by (auto simp: resizeEvent_def Let_def dest!: attempt_window_size_triggered
      split: if_splits prod.splits)

lemma attempt_eventFilter:
  "initialize_attempt (snd (eventFilter d e ev w)) = initialize_attempt w"
  by (simp add: eventFilter_def split: option.splits)

lemma attempt_on_file_open:
  "on_file_open d e fp fn w = Inr w' \<Longrightarrow> initialize_attempt w' = initialize_attempt w"
  by (auto simp: on_file_open_def Let_def split: sum.splits if_splits)

lemma attempt_on_rom_opened: "initialize_attempt (on_rom_opened e w) = initialize_attempt w"
  by (simp add: on_rom_opened_def Let_def)

lemma attempt_on_rom_closed:
  "initialize_attempt (on_rom_closed w) = initialize_attempt w"
  by (simp add: on_rom_closed_def Let_def)

lemma attempt_on_state_changed:
  "initialize_attempt (on_state_changed st w) = initialize_attempt w"
  by (cases st) (simp add: on_state_changed_def)

lemma attempt_on_archive_dialog:
  "on_archive_dialog e fs w = Inr w' \<Longrightarrow> initialize_attempt w' = initialize_attempt w"
  by (auto simp: on_archive_dialog_def Let_def split: if_splits option.splits)

lemma attempt_save_as_step:
  "initialize_attempt (snd (save_as_step f x st)) = initialize_attempt (snd st)"
  by (cases x; cases st) (simp add: save_as_step_def Let_def)

lemma attempt_fold_save_as:
  "initialize_attempt (snd (fold (save_as_step f) xs st)) = initialize_attempt (snd st)"
  by (induction xs arbitrary: st) (simp_all add: attempt_save_as_step)

lemma attempt_on_triggered:
  "on_triggered d e a w = Inr w' \<Longrightarrow> initialize_attempt w' = initialize_attempt w"
proof (cases a)
  case actionManually
  assume "on_triggered d e a w = Inr w'"
  then show ?thesis
    using actionManually
    by (auto simp: on_triggered_def on_actionManually_triggered_def file_open_emit_def Let_def
        split: if_splits sum.splits dest!: attempt_on_file_open)
next
  case actionSaveAs
  assume "on_triggered d e a w = Inr w'"
  then show ?thesis
    using actionSaveAs
    by (auto simp: on_triggered_def on_actionSaveAs_triggered_def Let_def attempt_fold_save_as
        split: if_splits option.splits prod.splits)
qed (auto simp: on_triggered_def on_actionFromList_triggered_def
      on_actionShowROMInfo_triggered_def on_actionLoadState_triggered_def
      on_actionSaveState_triggered_def on_actionLoadFrom_triggered_def
      on_actionSaveScreenshot_triggered_def on_actionPause_triggered_def
      on_actionMute_triggered_def on_actionStop_triggered_def on_actionReset_triggered_def
      on_actionSoftReset_triggered_def on_actionLimitFPS_triggered_def
      on_actionSlowDown_triggered_def on_actionSpeedUp_triggered_def
      on_actionCheats_triggered_def on_actionFullscreen_triggered_def
      on_actionPaths_triggered_def on_actionEmulator_triggered_def
      on_actionGraphics_triggered_def on_actionPlugins_triggered_def
      on_actionAbout_triggered_def on_actionLicense_triggered_def on_actionLog_triggered_def
      Let_def)

lemma attempt_trigger:
  "trigger d e a w = Inr w' \<Longrightarrow> initialize_attempt w' = initialize_attempt w"
  by (auto simp: trigger_def Let_def attempt_fold_kept
      split: if_splits sum.splits dest!: attempt_on_triggered)

lemma attempt_step:
  assumes "step d e ev w = Inr w'" and "ev \<noteq> TimerEvent"
  shows "initialize_attempt w' = initialize_attempt w"
  using assms
  by (cases ev)
     (auto simp: step_def closeEvent_def on_file_opening_def on_info_dialog_def
        on_vidext_set_mode_def attempt_eventFilter attempt_on_rom_opened attempt_on_rom_closed
        attempt_on_state_changed Let_def
      dest: attempt_showEvent attempt_resizeEvent attempt_on_file_open
        attempt_on_archive_dialog attempt_trigger)

lemma attempt_wait_for_initialize:
  assumes "wait_for_initialize d e w = Inr w'"
  shows "initialize_attempt w' =
     (if emu_state e = M64EMU_STOPPED d then initialize_attempt w + 1 else initialize_attempt w)"
  using assms
  by (auto simp: wait_for_initialize_def Let_def split: if_splits sum.splits
      dest!: attempt_window_size_triggered)

lemma attempt_timer_step:
  assumes "step d e TimerEvent w = Inr w'"
  shows "initialize_attempt w' =
     (if timers w \<noteq> [] \<and> emu_state e = M64EMU_STOPPED d
      then initialize_attempt w + 1 else initialize_attempt w)"
proof (cases "timers w")
  case Nil
  then show ?thesis using assms by (simp add: step_def fire_timer_def)
next
  case (Cons t rest)
  obtain msec sl where "t = (msec, sl)" by (cases t)
  then have "wait_for_initialize d e (w\<lparr>timers := rest\<rparr>) = Inr w'"
    using assms Cons by (cases sl) (simp add: step_def fire_timer_def)
  from attempt_wait_for_initialize [OF this] show ?thesis
    using Cons by simp
qed

lemma attempt_run:
  "run d evs w = Inr w' \<Longrightarrow> initialize_attempt w \<le> initialize_attempt w'"
proof (induction evs arbitrary: w)
  case Nil
  then show ?case by simp
next
  case (Cons p evs)
  obtain ev e where p: "p = (ev, e)" by (cases p)
  obtain v where v: "step d e ev w = Inr v" and r: "run d evs v = Inr w'"
    using Cons.prems p by (auto split: sum.splits)
  have "initialize_attempt w \<le> initialize_attempt v"
  proof (cases "ev = TimerEvent")
    case True
    then show ?thesis using attempt_timer_step [of d e w v] v by (auto split: if_splits)
  next
    case False
    then show ?thesis using attempt_step [OF v] by simp
  qed
  then show ?case using Cons.IH [OF r] by simp
qed


lemma MainWindow_init_attempt:
  "\<exists>w0. MainWindow_init d e ui = Inr w0 \<and> initialize_attempt w0 = 0"
proof -
  define w9 where "w9 = (do_call Worker_create (do_call Settings_create
      ((update_status (''M64Py version '' @ FRONTEND_VERSION d @ ''.'')
         (do_call logview_setWindowFlags (do_call logview_setParent
            (ui\<lparr>initialized := False, initialize_attempt := 0\<rparr>))))
        \<lparr>sizes := sizes_dict d, slots := [], cheats := None, widgets_height := None\<rparr>)))
      \<lparr>vidext := (enable_vidext e \<noteq> 0)\<rparr>"
  have s9: "slots w9 = []" "initialize_attempt w9 = 0"
    by (simp_all add: w9_def do_call_def update_status_def)
  from create_state_slots_result [OF s9(1)] obtain w10 where
    w10: "create_state_slots w9 = Inr w10" by blast
  have a10: "initialize_attempt w10 = 0"
    using attempt_create_state_slots [OF w10] s9(2) by simp
  have "MainWindow_init d e ui =
      Inr (do_call (Worker worker_init) (do_call RecentFiles_create
        (do_call installEventFilter (do_call installEventFilter (create_widgets w10)))))"
    using w10 by (simp add: MainWindow_init_def w9_def Let_def)
  then show ?thesis
    using a10 by (simp add: create_widgets_def Let_def)
qed

lemma run_timers_lower: "n \<le> fst (run_timers d es n w)"
proof (induction d es n w rule: run_timers.induct)
  case (1 d es n w)
  show ?case
  proof (cases "timers w = []")
    case True
    then show ?thesis by (simp add: run_timers.simps [of d es n w])
  next
    case False
    show ?thesis
    proof (cases "fire_timer d (es n) w")
      case (Inl err)
      then show ?thesis using False by (simp add: run_timers.simps [of d es n w])
    next
      case (Inr w')
      then show ?thesis
        using False "1.IH" [OF False Inr] by (simp add: run_timers.simps [of d es n w])
    qed
  qed
qed

lemma one_poll_when_exhausted:
  assumes "9 \<le> initialize_attempt w" and "timers w = []"
  shows "fst (run_timers d es 0 (on_rom_opened e w)) = 1"
proof -
  let ?w1 = "on_rom_opened e w"
  have t: "timers ?w1 = [(1000, wait_for_initialize_slot)]"
    and a: "initialize_attempt ?w1 = initialize_attempt w"
    using assms(2) by (simp_all add: on_rom_opened_def singleShot_def update_status_def Let_def)
  have "timer_budget ?w1 = 1"
    using assms(1) by (simp add: timer_budget_def t a)
  then have up: "fst (run_timers d es 0 ?w1) \<le> 1"
    using run_timers_bound [of d es 0 ?w1] by simp
  have "1 \<le> fst (run_timers d es 0 ?w1)"
  proof (cases "fire_timer d (es 0) ?w1")
    case (Inl err)
    then show ?thesis using t by (simp add: run_timers.simps [of d es 0 ?w1])
  next
    case (Inr w')
    then show ?thesis
      using t run_timers_lower [of "Suc 0" d es w']
      by (simp add: run_timers.simps [of d es 0 ?w1])
  qed
  then show ?thesis using up by simp
qed

lemma reschedule_below_ten:
  assumes "step d e TimerEvent w = Inr w'" and "timers w \<noteq> []"
    and "length (timers w') = length (timers w)"
  shows "emu_state e = M64EMU_STOPPED d \<and> initialize_attempt w' < 10"
proof -
  obtain msec sl rest where t: "timers w = (msec, sl) # rest"
    using assms(2) by (cases "timers w") auto
  then have r: "wait_for_initialize d e (w\<lparr>timers := rest\<rparr>) = Inr w'"
    using assms(1) by (cases sl) (simp add: step_def fire_timer_def)
  show ?thesis
  proof (cases "emu_state e = M64EMU_STOPPED d")
    case True
    then show ?thesis
      using r t assms(3)
      by (auto simp: wait_for_initialize_def do_call_def singleShot_def Let_def split: if_splits)
  next
    case False
    then obtain w2 where "window_size_triggered d e (window_width e, window_height e)
        (do_call (Worker (worker_core_state_query (M64CORE_EMU_STATE d))) (w\<lparr>timers := rest\<rparr>)) = Inr w2"
      and "w' = do_call (Worker worker_toggle_actions) w2"
      using r by (auto simp: wait_for_initialize_def Let_def split: sum.splits)
    then have "timers w' = rest"
      using window_size_triggered_fields(1) [of d e _ _ w2] by (simp add: do_call_def)
    then show ?thesis using t assms(3) by simp
  qed
qed

text \<open>
  C8. The constructor returns a window whose attempt counter is 0. Afterwards no event
  but a firing timer changes the counter, and a firing timer adds one to it exactly when
  its poll observes the stopped state; the poll then schedules itself again only if the
  incremented counter is below 10. \<open>on_rom_closed\<close> resets \<open>_initialized\<close> and leaves the
  counter alone. So over any session the counter never goes down: it counts the polls
  that have observed the stopped state since the window was constructed, over all ROMs.
  Once it has reached 10, opening a ROM (with no other timer pending) leads to exactly
  one poll, whatever the core answers.
\<close>

theorem initialize_attempt_cumulative:
  "(\<exists>w0. MainWindow_init d e ui = Inr w0 \<and> initialize_attempt w0 = 0)
   \<and> (step d e ev w = Inr w1 \<and> ev \<noteq> TimerEvent \<longrightarrow>
        initialize_attempt w1 = initialize_attempt w)
   \<and> (step d e TimerEvent w = Inr w2 \<longrightarrow>
        initialize_attempt w2 =
          (if timers w \<noteq> [] \<and> emu_state e = M64EMU_STOPPED d
           then initialize_attempt w + 1 else initialize_attempt w))
   \<and> (step d e TimerEvent w = Inr w2 \<and> timers w \<noteq> []
        \<and> length (timers w2) = length (timers w) \<longrightarrow>
        emu_state e = M64EMU_STOPPED d \<and> initialize_attempt w2 < 10)
   \<and> initialized (on_rom_closed w) = False
   \<and> initialize_attempt (on_rom_closed w) = initialize_attempt w
   \<and> (run d evs w = Inr w3 \<longrightarrow> initialize_attempt w \<le> initialize_attempt w3)
   \<and> (10 \<le> initialize_attempt w \<and> timers w = [] \<longrightarrow>
        fst (run_timers d es 0 (on_rom_opened e w)) = 1)"
proof (intro conjI impI)
  show "\<exists>w0. MainWindow_init d e ui = Inr w0 \<and> initialize_attempt w0 = 0"
    by (rule MainWindow_init_attempt)
next
  assume "step d e ev w = Inr w1 \<and> ev \<noteq> TimerEvent"
  then show "initialize_attempt w1 = initialize_attempt w"
    using attempt_step by blast
next
  assume "step d e TimerEvent w = Inr w2"
  then show "initialize_attempt w2 =
          (if timers w \<noteq> [] \<and> emu_state e = M64EMU_STOPPED d
           then initialize_attempt w + 1 else initialize_attempt w)"
    by (rule attempt_timer_step)
next
  assume "step d e TimerEvent w = Inr w2 \<and> timers w \<noteq> []
        \<and> length (timers w2) = length (timers w)"
  then show "emu_state e = M64EMU_STOPPED d" and "initialize_attempt w2 < 10"
    using reschedule_below_ten by blast+
next
  show "initialized (on_rom_closed w) = False"
    by (simp add: on_rom_closed_def Let_def)
next
  show "initialize_attempt (on_rom_closed w) = initialize_attempt w"
    by (rule attempt_on_rom_closed)
next
  assume "run d evs w = Inr w3"
  then show "initialize_attempt w \<le> initialize_attempt w3"
    by (rule attempt_run)
next
  assume "10 \<le> initialize_attempt w \<and> timers w = []"
  then show "fst (run_timers d es 0 (on_rom_opened e w)) = 1"
    using one_poll_when_exhausted [of w d es e] by simp
qed

theorem initialize_attempt_cumulative_witness:
  "(\<exists>w0. MainWindow_init example_defs example_env example_window = Inr w0
       \<and> initialize_attempt w0 = 0)
   \<and> initialize_attempt (on_rom_closed example_exhausted) = 10
   \<and> (\<exists>w2. step example_defs example_env_stopped TimerEvent
               (on_rom_opened example_env example_window) = Inr w2
         \<and> initialize_attempt w2 = 1 \<and> initialize_attempt w2 < 10
         \<and> timers w2 = [(1000, wait_for_initialize_slot)])
   \<and> (\<exists>w3. run example_defs [(signal_rom_closed, example_env)] example_exhausted = Inr w3
         \<and> 10 \<le> initialize_attempt w3)
   \<and> fst (run_timers example_defs (\<lambda>k. example_env_stopped) 0
            (on_rom_opened example_env example_exhausted)) = 1"
proof -
  let ?o = "on_rom_opened example_env example_window"
  have o: "timers ?o = [(1000, wait_for_initialize_slot)]" "initialize_attempt ?o = 0"
    by (simp_all add: on_rom_opened_def singleShot_def update_status_def Let_def
        example_window_def)
  have st: "emu_state example_env_stopped = M64EMU_STOPPED example_defs"
    by (simp add: example_env_stopped_def example_defs_def)
  define w2 where "w2 = (?o\<lparr>timers := []\<rparr>)
      \<lparr>initialize_attempt := 1, timers := [(1000, wait_for_initialize_slot)],
       calls := calls ?o @ [Worker (worker_core_state_query (M64CORE_EMU_STATE example_defs))]\<rparr>"
  have s2: "step example_defs example_env_stopped TimerEvent ?o = Inr w2"
    using wait_for_initialize_stopped [OF st, of "?o\<lparr>timers := []\<rparr>"] o
    by (simp add: step_def fire_timer_def w2_def)
  have w2: "initialize_attempt w2 = 1" "timers w2 = [(1000, wait_for_initialize_slot)]"
    by (simp_all add: w2_def)
  have e: "initialize_attempt example_exhausted = 10" "timers example_exhausted = []"
    by (simp_all add: example_exhausted_def example_window_def)
  have r: "run example_defs [(signal_rom_closed, example_env)] example_exhausted
      = Inr (on_rom_closed example_exhausted)"
    by (simp add: step_def)
  have c: "step example_defs example_env signal_rom_closed example_exhausted
      = Inr (on_rom_closed example_exhausted)"
    by (simp add: step_def)
  show ?thesis
    using initialize_attempt_cumulative [of example_defs example_env example_window
        signal_rom_closed example_exhausted "on_rom_closed example_exhausted"
        w2 "[(signal_rom_closed, example_env)]" "on_rom_closed example_exhausted"
        "\<lambda>k. example_env_stopped"]
      initialize_attempt_cumulative [of example_defs example_env_stopped example_window
        signal_rom_closed ?o "on_rom_closed ?o"
        w2 "[]" ?o "\<lambda>k. example_env_stopped"]
      s2 w2 e r c o st
    by (simp add: step_def)
qed


end
